theory Spec2Isabelle
  imports Complex_Main
begin

section \<open>Numbers of the harness\<close>

text \<open>
  The timing statistics of both harnesses are C++ \<^verbatim>\<open>double\<close> values: IEEE 754 binary64
  numbers. A finite double is a real that binary64 represents; the three special values
  stand beside them, so that a division by zero is a value of the model and not the
  \<open>x / 0 = 0\<close> of HOL. Every arithmetic operation and every conversion from an integer
  rounds its exact result to the nearest representable number, ties to even
  (\<open>round64\<close>), with gradual underflow below \<open>2 powi - 1022\<close> and overflow to an
  infinity from \<open>2 powi 1024\<close> on; each operation is rounded on its own (no fused
  multiply-add). The sign of zero is not modelled: every divisor of the harness is
  converted from an integer or a container size, so a zero divisor is \<open>+0\<close>.
\<close>

datatype double = Fin real | PInf | NInf | NaN

fun dsigned_inf :: "bool \<Rightarrow> double" where
  "dsigned_inf True = PInf"
| "dsigned_inf False = NInf"

text \<open>The nearest integer, ties to the even one.\<close>

definition round_even :: "real \<Rightarrow> int" where
  "round_even x =
     (let f = \<lfloor>x\<rfloor>
      in if x - of_int f < 1 / 2 then f
         else if 1 / 2 < x - of_int f then f + 1
         else if even f then f else f + 1)"

text \<open>
  The binary exponent of a real other than zero, not below the exponent of the
  subnormal numbers; a double of this exponent is a multiple of \<open>2 powi (binade x - 52)\<close>.
\<close>

definition binade :: "real \<Rightarrow> int" where
  "binade x = max \<lfloor>log 2 \<bar>x\<bar>\<rfloor> (- 1022)"

definition round64 :: "real \<Rightarrow> double" where
  "round64 x =
     (if x = 0 then Fin 0
      else
        (let ulp = 2 powi (binade x - 52);
             y = of_int (round_even (x / ulp)) * ulp
         in if 2 powi 1024 \<le> \<bar>y\<bar> then dsigned_inf (0 < x) else Fin y))"

fun dneg :: "double \<Rightarrow> double" where
  "dneg (Fin a) = Fin (- a)"
| "dneg PInf = NInf"
| "dneg NInf = PInf"
| "dneg NaN = NaN"

fun dadd :: "double \<Rightarrow> double \<Rightarrow> double" where
  "dadd (Fin a) (Fin b) = round64 (a + b)"
| "dadd NaN _ = NaN"
| "dadd _ NaN = NaN"
| "dadd PInf NInf = NaN"
| "dadd NInf PInf = NaN"
| "dadd PInf _ = PInf"
| "dadd NInf _ = NInf"
| "dadd _ PInf = PInf"
| "dadd _ NInf = NInf"

definition dsub :: "double \<Rightarrow> double \<Rightarrow> double" where
  "dsub a b = dadd a (dneg b)"

fun dmul :: "double \<Rightarrow> double \<Rightarrow> double" where
  "dmul (Fin a) (Fin b) = round64 (a * b)"
| "dmul NaN _ = NaN"
| "dmul _ NaN = NaN"
| "dmul PInf (Fin b) = (if b = 0 then NaN else dsigned_inf (0 < b))"
| "dmul NInf (Fin b) = (if b = 0 then NaN else dsigned_inf (b < 0))"
| "dmul (Fin a) PInf = (if a = 0 then NaN else dsigned_inf (0 < a))"
| "dmul (Fin a) NInf = (if a = 0 then NaN else dsigned_inf (a < 0))"
| "dmul PInf PInf = PInf"
| "dmul NInf NInf = PInf"
| "dmul PInf NInf = NInf"
| "dmul NInf PInf = NInf"

fun ddiv :: "double \<Rightarrow> double \<Rightarrow> double" where
  "ddiv (Fin a) (Fin b) =
     (if b = 0 then (if a = 0 then NaN else dsigned_inf (0 < a)) else round64 (a / b))"
| "ddiv NaN _ = NaN"
| "ddiv _ NaN = NaN"
| "ddiv (Fin a) _ = Fin 0"
| "ddiv PInf (Fin b) = dsigned_inf (0 \<le> b)"
| "ddiv NInf (Fin b) = dsigned_inf (b < 0)"
| "ddiv _ _ = NaN"

fun dsqrt :: "double \<Rightarrow> double" where
  "dsqrt (Fin a) = (if a < 0 then NaN else round64 (sqrt a))"
| "dsqrt PInf = PInf"
| "dsqrt NInf = NaN"
| "dsqrt NaN = NaN"

text \<open>The comparisons \<^verbatim>\<open><\<close> and \<^verbatim>\<open>==\<close> on doubles: false whenever an operand is NaN.\<close>

fun dless :: "double \<Rightarrow> double \<Rightarrow> bool" where
  "dless (Fin a) (Fin b) = (a < b)"
| "dless NaN _ = False"
| "dless _ NaN = False"
| "dless NInf NInf = False"
| "dless NInf _ = True"
| "dless PInf _ = False"
| "dless _ PInf = True"
| "dless _ NInf = False"

fun deq :: "double \<Rightarrow> double \<Rightarrow> bool" where
  "deq NaN _ = False"
| "deq _ NaN = False"
| "deq a b = (a = b)"

text \<open>Conversions \<^verbatim>\<open>double(n)\<close> from \<^verbatim>\<open>int\<close>, \<^verbatim>\<open>long\<close> and \<^verbatim>\<open>size_t\<close>.\<close>

definition double_of_int :: "int \<Rightarrow> double" where
  "double_of_int n = round64 (real_of_int n)"

definition double_of_size :: "nat \<Rightarrow> double" where
  "double_of_size n = round64 (real n)"

text \<open>
  \<^verbatim>\<open>size_t\<close> is 64 bits wide; an \<^verbatim>\<open>int\<close> converted to it is reduced modulo \<open>2 ^ 64\<close>.
\<close>

definition size_t_of_int :: "int \<Rightarrow> nat" where
  "size_t_of_int i = nat (i mod 2 ^ 64)"

section \<open>The event source and \<^verbatim>\<open>read_input_events\<close> (fastjet-utils.cc)\<close>

datatype FourVector = FourVector (px: double) (py: double) (pz: double) (e: double)

record GenParticle =
  status :: int
  momentum :: FourVector

text \<open>A decoded event, as far as the harness looks at it: \<^verbatim>\<open>evt.particles()\<close>.\<close>

type_synonym GenEvent = "GenParticle list"

datatype PseudoJet = PseudoJet double double double double

text \<open>
  \<^verbatim>\<open>HepMC3::ReaderAscii\<close> is external. Its state is the \<^verbatim>\<open>failed()\<close> flag (set from the
  start when the file cannot be opened) and what the coming calls of \<^verbatim>\<open>read_event\<close> will
  do: \<open>Some ev\<close> decodes the event \<open>ev\<close>, \<open>None\<close> is a decode failure, and the
  end of the list is the end of the data; both set \<^verbatim>\<open>failed()\<close>. \<open>reads\<close> counts
  the calls of \<^verbatim>\<open>read_event\<close>.
\<close>

record ReaderAscii =
  failed :: bool
  pending :: "GenEvent option list"
  reads :: nat

definition read_event :: "ReaderAscii \<Rightarrow> GenEvent \<times> ReaderAscii" where
  "read_event input_file =
     (case pending input_file of
        Some evt # rest \<Rightarrow> (evt, input_file\<lparr>pending := rest, reads := reads input_file + 1\<rparr>)
      | None # rest \<Rightarrow>
          ([], input_file\<lparr>failed := True, pending := rest, reads := reads input_file + 1\<rparr>)
      | [] \<Rightarrow> ([], input_file\<lparr>failed := True, reads := reads input_file + 1\<rparr>))"

text \<open>The inner loop of \<^verbatim>\<open>read_input_events\<close> over \<^verbatim>\<open>evt.particles()\<close>.\<close>

fun input_particles :: "GenEvent \<Rightarrow> PseudoJet list" where
  "input_particles [] = []"
| "input_particles (p # ps) =
     (if status p = 1
      then PseudoJet (px (momentum p)) (py (momentum p)) (pz (momentum p)) (e (momentum p))
             # input_particles ps
      else input_particles ps)"

text \<open>What \<^verbatim>\<open>read_input_events\<close> leaves behind: the reader, the count it prints and the
  vector \<^verbatim>\<open>events\<close> it returns.\<close>

record read_result =
  reader :: ReaderAscii
  events_parsed :: int
  result_events :: "PseudoJet list list"

text \<open>
  The \<^verbatim>\<open>while (!input_file.failed())\<close> loop. \<^verbatim>\<open>events_parsed\<close> is a 32-bit \<^verbatim>\<open>int\<close> in
  the source and an unbounded one here: the theorems that depend on it are stated for
  sources of fewer than \<open>2 ^ 31\<close> events.
\<close>

function read_loop :: "int \<Rightarrow> read_result \<Rightarrow> read_result" where
  "read_loop maxevents st =
     (if failed (reader st) then st
      else if maxevents \<ge> 0 \<and> events_parsed st \<ge> maxevents then st
      else
        (case read_event (reader st) of
           (evt, input_file) \<Rightarrow>
             if failed input_file then st\<lparr>reader := input_file\<rparr>
             else read_loop maxevents
                    \<lparr>reader = input_file,
                     events_parsed = events_parsed st + 1,
                     result_events = result_events st @ [input_particles evt]\<rparr>))"
  by pat_completeness auto
termination
  by (relation "measure (\<lambda>(maxevents, st). length (pending (reader st)))")
     (auto simp: read_event_def split: list.splits option.splits)

declare read_loop.simps [simp del]

definition read_input_events :: "ReaderAscii \<Rightarrow> int \<Rightarrow> read_result" where
  "read_input_events input_file maxevents =
     read_loop maxevents \<lparr>reader = input_file, events_parsed = 0, result_events = []\<rparr>"


section \<open>The external collaborators\<close>

datatype Strategy = Best | N2Plain | N2Tiled

datatype JetAlgorithm =
    kt_algorithm
  | cambridge_aachen_algorithm
  | antikt_algorithm
  | genkt_algorithm
  | ee_kt_algorithm
  | ee_genkt_algorithm

datatype RecombinationScheme = E_scheme

text \<open>The three constructors of \<^verbatim>\<open>fastjet::JetDefinition\<close> that the harnesses call.\<close>

datatype JetDefinition =
    JetDefinition_R_p JetAlgorithm double double RecombinationScheme Strategy
  | JetDefinition_ee JetAlgorithm RecombinationScheme Strategy
  | JetDefinition_R JetAlgorithm double RecombinationScheme Strategy

text \<open>
  Everything the harnesses call and do not define: the fastjet library over its cluster
  sequences \<open>'cs\<close>, the \<^verbatim>\<open>ReaderAscii\<close> constructor on a file name, \<^verbatim>\<open>fopen\<close> in mode
  \<^verbatim>\<open>"w"\<close> (\<open>None\<close> is the null pointer it returns when the file cannot be opened), the
  steady clock (\<open>clock_us w trial\<close> is the microsecond count measured around the event
  loop of that trial) and the conversions \<^verbatim>\<open>std::stoi\<close> and \<^verbatim>\<open>std::stod\<close>, where
  \<open>None\<close> is the exception they throw. The calls into fastjet are taken to return.
\<close>

datatype FILE = stdout | named string

record 'cs world =
  ClusterSequence :: "PseudoJet list \<Rightarrow> JetDefinition \<Rightarrow> 'cs"
  inclusive_jets :: "'cs \<Rightarrow> double \<Rightarrow> PseudoJet list"
  exclusive_jets_dcut :: "'cs \<Rightarrow> double \<Rightarrow> PseudoJet list"
  exclusive_jets_njets :: "'cs \<Rightarrow> int \<Rightarrow> PseudoJet list"
  sorted_by_pt :: "PseudoJet list \<Rightarrow> PseudoJet list"
  rap :: "PseudoJet \<Rightarrow> double"
  phi :: "PseudoJet \<Rightarrow> double"
  perp :: "PseudoJet \<Rightarrow> double"
  open_file :: "string \<Rightarrow> ReaderAscii"
  fopen :: "string \<Rightarrow> FILE option"
  clock_us :: "nat \<Rightarrow> int"
  stoi :: "string \<Rightarrow> int option"
  stod :: "string \<Rightarrow> double option"

section \<open>What a run leaves behind\<close>

text \<open>
  The lines written with \<^verbatim>\<open>fprintf(dump_fh, ...)\<close> and the call of \<^verbatim>\<open>dump_clusterseq\<close>
  (which prints the jets and the history of its argument to standard output).
\<close>

datatype 'cs dump_line =
    EventHeader nat
  | JetLine nat double double double
  | ClusterSeqDump 'cs

text \<open>
  One pass over the events: the calls of \<^verbatim>\<open>run_fastjet_clustering\<close> in order, each with
  its index \<^verbatim>\<open>ievt\<close> and the particles \<^verbatim>\<open>events[ievt]\<close> handed over, and the dump
  lines written during the pass. \<open>died\<close> says that the pass ended in \<^verbatim>\<open>fprintf\<close> on a
  null \<^verbatim>\<open>dump_fh\<close>: the behaviour is undefined there, and the process is taken to be
  killed at that call, as it is under glibc.
\<close>

record 'cs trial_log =
  clustered :: "(nat \<times> PseudoJet list) list"
  dumped :: "'cs dump_line list"
  died :: bool

record 'cs run_state =
  time_total :: double
  time_total2 :: double
  time_lowest :: double
  trial_logs :: "'cs trial_log list"
  killed :: bool

text \<open>The four lines printed at the end of \<^verbatim>\<open>main\<close>.\<close>

record statistics =
  processed :: nat
  times :: int
  total_time :: double
  mean_per_event :: double
  sigma_per_event :: double
  lowest_per_event :: double

datatype diagnostic =
    HelpText
  | UsageLine
  | NoInputFileArgument
  | OnlyOneInputFileSupported
  | UnexpectedArguments "string list"
  | SelectionCount int
  | UnknownAlgorithm string

text \<open>
  How the process ends: \<^verbatim>\<open>exit(c)\<close> and \<^verbatim>\<open>return c\<close> from \<^verbatim>\<open>main\<close> give the parent the
  low eight bits of \<open>c\<close>; an exception that nothing catches ends in \<^verbatim>\<open>abort\<close>; a write
  to a null stream ends in \<open>Crash\<close>.
\<close>

datatype ending = Exit int | Abort | Crash

definition exit_with :: "int \<Rightarrow> ending" where
  "exit_with c = Exit (c mod 256)"

definition EXIT_SUCCESS :: int where
  "EXIT_SUCCESS = 0"

definition EXIT_FAILURE :: int where
  "EXIT_FAILURE = 1"

text \<open>
  \<open>input\<close> is \<open>None\<close> as long as \<^verbatim>\<open>read_input_events\<close> has not been called;
  \<open>report\<close> is \<open>None\<close> unless the statistics were printed.
\<close>

record 'cs outcome =
  ending :: ending
  diagnostics :: "diagnostic list"
  input :: "read_result option"
  trials_run :: "'cs trial_log list"
  report :: "statistics option"

definition stopped :: "int \<Rightarrow> diagnostic list \<Rightarrow> read_result option \<Rightarrow> 'cs outcome" where
  "stopped c ds inp =
     \<lparr>ending = exit_with c, diagnostics = ds, input = inp, trials_run = [], report = None\<rparr>"

section \<open>The dump stream, the trial loop and the statistics (the same text in both harnesses)\<close>

text \<open>
  fastjet-finder.cc lines 178 to 183 and fastjet-inclusive.cc lines 141 to 146:
  \<^verbatim>\<open>dump_fh\<close> is \<^verbatim>\<open>stdout\<close> unless a dump file other than \<^verbatim>\<open>-\<close> is named; then it is
  what \<^verbatim>\<open>fopen\<close> returns, which neither program tests. \<open>dump\<close> is the name given, if any.
\<close>

definition open_dump :: "'cs world \<Rightarrow> string option \<Rightarrow> FILE option" where
  "open_dump w dump =
     (case dump of
        None \<Rightarrow> Some stdout
      | Some dump_file \<Rightarrow> if dump_file \<noteq> ''-'' then fopen w dump_file else Some stdout)"

text \<open>
  \<^verbatim>\<open>for (long trial = 0; trial < trials; ++trial)\<close>, fastjet-finder.cc lines 189 to 228 and
  fastjet-inclusive.cc lines 152 to 176. The two files differ in the event loop only,
  which is the parameter \<open>event_pass\<close> here; \<open>trial_body\<close> is what follows the event
  loop in one turn (lines 221 to 227). A pass in which the process is killed ends the
  loop.
\<close>

definition trial_body ::
  "'cs world \<Rightarrow> 'cs trial_log \<Rightarrow> nat \<Rightarrow> 'cs run_state \<Rightarrow> 'cs run_state" where
  "trial_body w pass trial st =
     (let us_elapsed = double_of_int (clock_us w trial)
      in \<lparr>time_total = dadd (time_total st) us_elapsed,
          time_total2 = dadd (time_total2 st) (dmul us_elapsed us_elapsed),
          time_lowest =
            (if dless us_elapsed (time_lowest st) then us_elapsed else time_lowest st),
          trial_logs = trial_logs st @ [pass],
          killed = killed st\<rparr>)"

function trial_loop ::
  "'cs world \<Rightarrow> (nat \<Rightarrow> 'cs trial_log) \<Rightarrow> int \<Rightarrow> nat \<Rightarrow> 'cs run_state \<Rightarrow> 'cs run_state" where
  "trial_loop w event_pass trials trial st =
     (if int trial < trials then
        (let pass = event_pass trial
         in if died pass then st\<lparr>trial_logs := trial_logs st @ [pass], killed := True\<rparr>
            else trial_loop w event_pass trials (trial + 1) (trial_body w pass trial st))
      else st)"
  by pat_completeness auto
termination
  by (relation "measure (\<lambda>(w, event_pass, trials, trial, st). nat (trials - int trial))") auto

declare trial_loop.simps [simp del]

text \<open>The sentinel \<open>1.0e20\<close> is \<open>5 ^ 20 * 2 ^ 20\<close>, which binary64 represents.\<close>

definition initial_state :: "'cs run_state" where
  "initial_state =
     \<lparr>time_total = Fin 0, time_total2 = Fin 0, time_lowest = Fin (10 ^ 20), trial_logs = [],
      killed = False\<rparr>"

text \<open>
  fastjet-finder.cc lines 229 to 242, fastjet-inclusive.cc lines 177 to 190;
  \<open>n\<close> is \<^verbatim>\<open>events.size()\<close>.
\<close>

definition statistics :: "int \<Rightarrow> nat \<Rightarrow> 'cs run_state \<Rightarrow> statistics" where
  "statistics trials n st =
     (let time_total = ddiv (time_total st) (double_of_int trials);
          time_total2 = ddiv (time_total2 st) (double_of_int trials);
          sigma =
            (if trials > 1
             then dsqrt (dmul (ddiv (double_of_int trials) (double_of_int (trials - 1)))
                              (dsub time_total2 (dmul time_total time_total)))
             else Fin 0);
          mean_per_event = ddiv time_total (double_of_size n);
          sigma_per_event = ddiv sigma (double_of_size n);
          time_lowest = ddiv (time_lowest st) (double_of_size n)
      in \<lparr>processed = n, times = trials, total_time = time_total,
          mean_per_event = mean_per_event, sigma_per_event = sigma_per_event,
          lowest_per_event = time_lowest\<rparr>)"

text \<open>
  What is left of \<^verbatim>\<open>main\<close> after the trial loop: nothing when the process was killed in
  it, else the statistics and \<^verbatim>\<open>return 0\<close>. \<open>said\<close> is what was written to
  \<^verbatim>\<open>std::cerr\<close> before, \<open>loaded\<close> what \<^verbatim>\<open>read_input_events\<close> returned.
\<close>

definition after_trials ::
  "diagnostic list \<Rightarrow> read_result \<Rightarrow> int \<Rightarrow> 'cs run_state \<Rightarrow> 'cs outcome" where
  "after_trials said loaded trials st =
     (if killed st
      then \<lparr>ending = Crash, diagnostics = said, input = Some loaded,
            trials_run = trial_logs st, report = None\<rparr>
      else \<lparr>ending = exit_with 0, diagnostics = said, input = Some loaded,
            trials_run = trial_logs st,
            report = Some (statistics trials (length (result_events loaded)) st)\<rparr>)"

definition set_strategy :: "string \<Rightarrow> Strategy" where
  "set_strategy mystrategy =
     (if mystrategy = ''N2Plain'' then N2Plain
      else if mystrategy = ''N2Tiled'' then N2Tiled
      else Best)"

text \<open>The lines of one event in the dump: the header with the 1-based event number, then the jets.\<close>

definition jet_lines :: "'cs world \<Rightarrow> nat \<Rightarrow> PseudoJet list \<Rightarrow> 'cs dump_line list" where
  "jet_lines w ievt jets =
     EventHeader (ievt + 1)
       # map (\<lambda>(i, jet). JetLine i (rap w jet) (phi w jet) (perp w jet)) (enumerate 0 jets)"

section \<open>fastjet-finder.cc\<close>

text \<open>
  The command line after \<^verbatim>\<open>opts.parse(argc, argv)\<close> (the popl library is external):
  the count of \<^verbatim>\<open>--help\<close>, the value of each option that has a default (which popl
  also assigns to \<^verbatim>\<open>maxevents\<close>, \<^verbatim>\<open>skip_events\<close>, \<^verbatim>\<open>trials\<close>, \<^verbatim>\<open>mystrategy\<close>,
  \<^verbatim>\<open>power\<close>, \<^verbatim>\<open>alg\<close> and \<^verbatim>\<open>R\<close>), the options without a default (\<open>None\<close>
  when \<^verbatim>\<open>is_set()\<close> is false), and \<^verbatim>\<open>opts.non_option_args()\<close>.
\<close>

record finder_options =
  help_option :: nat
  max_events_option :: int
  skip_events_option :: int
  trials_option :: int
  strategy_option :: string
  power_option :: double
  alg_option :: string
  radius_option :: double
  ptmin_option :: "double option"
  dijmax_option :: "double option"
  njets_option :: "int option"
  dump_option :: "string option"
  debug_clusterseq_option :: bool
  extra_args :: "string list"

definition is_set :: "'a option \<Rightarrow> bool" where
  "is_set opt = (opt \<noteq> None)"

definition run_fastjet_clustering ::
  "'cs world \<Rightarrow> PseudoJet list \<Rightarrow> Strategy \<Rightarrow> JetAlgorithm \<Rightarrow> double \<Rightarrow> double \<Rightarrow> 'cs" where
  "run_fastjet_clustering w particles strategy algorithm R p =
     (let recomb_scheme = E_scheme;
          jet_definition =
            (if algorithm = genkt_algorithm \<or> algorithm = ee_genkt_algorithm
             then JetDefinition_R_p algorithm R p recomb_scheme strategy
             else if algorithm = ee_kt_algorithm
             then JetDefinition_ee algorithm recomb_scheme strategy
             else JetDefinition_R algorithm R recomb_scheme strategy)
      in ClusterSequence w particles jet_definition)"

text \<open>Lines 112 to 120: the input file name and what is written to \<^verbatim>\<open>std::cerr\<close>.\<close>

definition input_file_argument :: "string list \<Rightarrow> string \<times> diagnostic list" where
  "input_file_argument args =
     (if length args = 1 then (args ! 0, [])
      else if length args = 0 then ([], [NoInputFileArgument])
      else ([], [OnlyOneInputFileSupported]))"

text \<open>Line 123: the number of selection flags that are set.\<close>

definition selection_sum :: "finder_options \<Rightarrow> int" where
  "selection_sum opts =
     of_bool (is_set (njets_option opts)) + of_bool (is_set (dijmax_option opts))
       + of_bool (is_set (ptmin_option opts))"

text \<open>
  Lines 142 to 174: the algorithm and the power passed on to the clustering;
  \<open>None\<close> is the \<^verbatim>\<open>exit(1)\<close> of the unknown algorithm name. The variable
  \<^verbatim>\<open>power\<close> is \<open>power_value\<close> here.
\<close>

definition select_algorithm :: "string \<Rightarrow> double \<Rightarrow> (JetAlgorithm \<times> double) option" where
  "select_algorithm alg power_value =
     (if alg \<noteq> [] then
        (if alg = ''AntiKt'' then Some (antikt_algorithm, Fin (- 1))
         else if alg = ''CA'' then Some (cambridge_aachen_algorithm, Fin 0)
         else if alg = ''Kt'' then Some (kt_algorithm, Fin 1)
         else if alg = ''GenKt'' then Some (genkt_algorithm, power_value)
         else if alg = ''Durham'' then Some (ee_kt_algorithm, Fin 1)
         else if alg = ''EEKt'' then Some (ee_genkt_algorithm, power_value)
         else None)
      else
        (if deq power_value (Fin (- 1)) then Some (antikt_algorithm, power_value)
         else if deq power_value (Fin 0) then Some (cambridge_aachen_algorithm, power_value)
         else if deq power_value (Fin 1) then Some (kt_algorithm, power_value)
         else Some (genkt_algorithm, power_value)))"

text \<open>Lines 195 to 203.\<close>

definition final_jets :: "'cs world \<Rightarrow> finder_options \<Rightarrow> 'cs \<Rightarrow> PseudoJet list" where
  "final_jets w opts cluster_sequence =
     (case ptmin_option opts of
        Some ptmin \<Rightarrow> sorted_by_pt w (inclusive_jets w cluster_sequence ptmin)
      | None \<Rightarrow>
          (case dijmax_option opts of
             Some dijmax \<Rightarrow> sorted_by_pt w (exclusive_jets_dcut w cluster_sequence dijmax)
           | None \<Rightarrow>
               (case njets_option opts of
                  Some njets \<Rightarrow> sorted_by_pt w (exclusive_jets_njets w cluster_sequence njets)
                | None \<Rightarrow> [])))"

text \<open>
  Lines 192 to 220, \<^verbatim>\<open>for (size_t ievt = ...; ievt < events.size(); ++ievt)\<close>, from the
  index \<open>ievt\<close> on. A vector holds fewer than \<open>2 ^ 64\<close> elements, so \<^verbatim>\<open>++ievt\<close> does
  not wrap below \<^verbatim>\<open>events.size()\<close>. The first \<^verbatim>\<open>fprintf\<close> of the dump (line 206) comes
  after the clustering of the event.
\<close>

function event_loop ::
  "'cs world \<Rightarrow> finder_options \<Rightarrow> FILE option \<Rightarrow> Strategy \<Rightarrow> JetAlgorithm \<Rightarrow> double
     \<Rightarrow> PseudoJet list list \<Rightarrow> nat \<Rightarrow> nat \<Rightarrow> 'cs trial_log \<Rightarrow> 'cs trial_log" where
  "event_loop w opts dump_fh strategy algorithm p events trial ievt acc =
     (if ievt < length events then
        (let cluster_sequence =
               run_fastjet_clustering w (events ! ievt) strategy algorithm (radius_option opts) p;
             jets = final_jets w opts cluster_sequence;
             called = acc\<lparr>clustered := clustered acc @ [(ievt, events ! ievt)]\<rparr>
         in if is_set (dump_option opts) \<and> trial = 0 then
              (case dump_fh of
                 None \<Rightarrow> called\<lparr>died := True\<rparr>
               | Some fh \<Rightarrow>
                   event_loop w opts dump_fh strategy algorithm p events trial (ievt + 1)
                     (called\<lparr>dumped := dumped acc @ jet_lines w ievt jets
                                @ (if debug_clusterseq_option opts
                                   then [ClusterSeqDump cluster_sequence] else [])\<rparr>))
            else event_loop w opts dump_fh strategy algorithm p events trial (ievt + 1) called)
      else acc)"
  by pat_completeness auto
termination
  by (relation "measure (\<lambda>(w, opts, dump_fh, strategy, algorithm, p, events, trial, ievt, acc).
                   length events - ievt)") auto

declare event_loop.simps [simp del]

text \<open>The log of a pass at its start.\<close>

definition no_calls :: "'cs trial_log" where
  "no_calls = \<lparr>clustered = [], dumped = [], died = False\<rparr>"

definition finder_main :: "'cs world \<Rightarrow> finder_options \<Rightarrow> 'cs outcome" where
  "finder_main w opts =
     (if help_option opts = 1 then stopped EXIT_SUCCESS [HelpText] None
      else
        (case input_file_argument (extra_args opts) of
           (input_file, said) \<Rightarrow>
             (let sum = selection_sum opts in
              if sum \<noteq> 1 then stopped EXIT_FAILURE (said @ [SelectionCount sum]) None
              else
                (let loaded = read_input_events (open_file w input_file) (max_events_option opts);
                     strategy = set_strategy (strategy_option opts)
                 in case select_algorithm (alg_option opts) (power_option opts) of
                      None \<Rightarrow> stopped 1 (said @ [UnknownAlgorithm (alg_option opts)]) (Some loaded)
                    | Some (algorithm, p) \<Rightarrow>
                        (let dump_fh = open_dump w (dump_option opts);
                             st = trial_loop w
                                    (\<lambda>trial. event_loop w opts dump_fh strategy algorithm p
                                       (result_events loaded) trial
                                       (size_t_of_int (skip_events_option opts)) no_calls)
                                    (trials_option opts) 0 initial_state
                         in after_trials said loaded (trials_option opts) st)))))"

section \<open>fastjet-inclusive.cc\<close>

text \<open>
  The variables of \<^verbatim>\<open>main\<close> that the \<^verbatim>\<open>getopt\<close> loop assigns. The names carry the prefix
  \<open>inc\<close> to keep them apart from the options of fastjet-finder; here \<^verbatim>\<open>power\<close> is an
  \<^verbatim>\<open>int\<close>.
\<close>

record inclusive_vars =
  inc_maxevents :: int
  inc_trials :: int
  inc_mystrategy :: string
  inc_dump :: bool
  inc_power :: int
  inc_R :: double
  inc_ptmin :: double
  inc_dump_file :: string

definition inclusive_defaults :: inclusive_vars where
  "inclusive_defaults =
     \<lparr>inc_maxevents = - 1, inc_trials = 8, inc_mystrategy = ''Best'', inc_dump = False,
      inc_power = - 1, inc_R = Fin 0.4, inc_ptmin = Fin 0.5, inc_dump_file = []\<rparr>"

datatype getopt_stop = Help | Usage | Uncaught

text \<open>
  Lines 62 to 103. \<^verbatim>\<open>getopt\<close> is external: the loop is run over the option characters
  it returns (\<^verbatim>\<open>?\<close> for an option it does not know), each with its \<^verbatim>\<open>optarg\<close>.
\<close>

fun getopt_loop ::
  "'cs world \<Rightarrow> (char \<times> string) list \<Rightarrow> inclusive_vars \<Rightarrow> getopt_stop + inclusive_vars" where
  "getopt_loop w [] v = Inr v"
| "getopt_loop w ((opt, optarg) # later) v =
     (if opt = CHR ''m'' then
        (case stoi w optarg of None \<Rightarrow> Inl Uncaught
         | Some n \<Rightarrow> getopt_loop w later (v\<lparr>inc_maxevents := n\<rparr>))
      else if opt = CHR ''n'' then
        (case stoi w optarg of None \<Rightarrow> Inl Uncaught
         | Some n \<Rightarrow> getopt_loop w later (v\<lparr>inc_trials := n\<rparr>))
      else if opt = CHR ''s'' then getopt_loop w later (v\<lparr>inc_mystrategy := optarg\<rparr>)
      else if opt = CHR ''p'' then
        (case stoi w optarg of None \<Rightarrow> Inl Uncaught
         | Some n \<Rightarrow> getopt_loop w later (v\<lparr>inc_power := n\<rparr>))
      else if opt = CHR ''R'' then
        (case stod w optarg of None \<Rightarrow> Inl Uncaught
         | Some x \<Rightarrow> getopt_loop w later (v\<lparr>inc_R := x\<rparr>))
      else if opt = CHR ''P'' then
        (case stod w optarg of None \<Rightarrow> Inl Uncaught
         | Some x \<Rightarrow> getopt_loop w later (v\<lparr>inc_ptmin := x\<rparr>))
      else if opt = CHR ''d'' then
        getopt_loop w later (v\<lparr>inc_dump_file := optarg, inc_dump := True\<rparr>)
      else if opt = CHR ''h'' then Inl Help
      else Inl Usage)"

text \<open>Lines 30 to 44: the clustering of fastjet-inclusive returns the sorted inclusive jets.\<close>

definition run_fastjet_clustering_inclusive ::
  "'cs world \<Rightarrow> PseudoJet list \<Rightarrow> Strategy \<Rightarrow> JetAlgorithm \<Rightarrow> double \<Rightarrow> double
     \<Rightarrow> PseudoJet list" where
  "run_fastjet_clustering_inclusive w particles strategy algorithm R ptmin =
     (let recomb_scheme = E_scheme;
          jet_def = JetDefinition_R algorithm R recomb_scheme strategy;
          clust_seq = ClusterSequence w particles jet_def
      in sorted_by_pt w (inclusive_jets w clust_seq ptmin))"

text \<open>Lines 132 to 137.\<close>

definition inclusive_algorithm :: "int \<Rightarrow> JetAlgorithm" where
  "inclusive_algorithm power_value =
     (if power_value = 0 then cambridge_aachen_algorithm
      else if power_value = 1 then kt_algorithm
      else antikt_algorithm)"

text \<open>Lines 155 to 168, from the index \<open>ievt\<close> on; the first \<^verbatim>\<open>fprintf\<close> is at line 159.\<close>

function inclusive_event_loop ::
  "'cs world \<Rightarrow> inclusive_vars \<Rightarrow> FILE option \<Rightarrow> Strategy \<Rightarrow> JetAlgorithm
     \<Rightarrow> PseudoJet list list \<Rightarrow> nat \<Rightarrow> nat \<Rightarrow> 'cs trial_log \<Rightarrow> 'cs trial_log" where
  "inclusive_event_loop w v dump_fh strategy algorithm events trial ievt acc =
     (if ievt < length events then
        (let jets = run_fastjet_clustering_inclusive w (events ! ievt) strategy algorithm
                      (inc_R v) (inc_ptmin v);
             called = acc\<lparr>clustered := clustered acc @ [(ievt, events ! ievt)]\<rparr>
         in if inc_dump v then
              (case dump_fh of
                 None \<Rightarrow> called\<lparr>died := True\<rparr>
               | Some fh \<Rightarrow>
                   inclusive_event_loop w v dump_fh strategy algorithm events trial (ievt + 1)
                     (called\<lparr>dumped := dumped acc @ jet_lines w ievt jets\<rparr>))
            else inclusive_event_loop w v dump_fh strategy algorithm events trial (ievt + 1)
                   called)
      else acc)"
  by pat_completeness auto
termination
  by (relation "measure (\<lambda>(w, v, dump_fh, strategy, algorithm, events, trial, ievt, acc).
                   length events - ievt)") auto

declare inclusive_event_loop.simps [simp del]

text \<open>
  \<open>opts\<close> is what \<^verbatim>\<open>getopt\<close> returns call by call, \<open>args\<close> the arguments from
  \<^verbatim>\<open>argv[optind]\<close> on when it has returned \<open>-1\<close>.
\<close>

definition inclusive_main ::
  "'cs world \<Rightarrow> (char \<times> string) list \<Rightarrow> string list \<Rightarrow> 'cs outcome" where
  "inclusive_main w opts args =
     (case getopt_loop w opts inclusive_defaults of
        Inl Help \<Rightarrow> stopped (- 1) [HelpText] None
      | Inl Usage \<Rightarrow> stopped EXIT_FAILURE [UsageLine] None
      | Inl Uncaught \<Rightarrow>
          \<lparr>ending = Abort, diagnostics = [], input = None, trials_run = [], report = None\<rparr>
      | Inr v \<Rightarrow>
          (if length args = 0 then stopped EXIT_FAILURE [NoInputFileArgument, UsageLine] None
           else if length args > 1
           then stopped EXIT_FAILURE [UnexpectedArguments (tl args), UsageLine] None
           else
             (let input_file = args ! 0;
                  loaded = read_input_events (open_file w input_file) (inc_maxevents v);
                  strategy = set_strategy (inc_mystrategy v);
                  algorithm = inclusive_algorithm (inc_power v);
                  dump_fh = open_dump w (if inc_dump v then Some (inc_dump_file v) else None);
                  st = trial_loop w
                         (\<lambda>trial. inclusive_event_loop w v dump_fh strategy algorithm
                            (result_events loaded) trial 0 no_calls)
                         (inc_trials v) 0 initial_state
              in after_trials [] loaded (inc_trials v) st)))"

section \<open>The statistics as the specification words them\<close>

text \<open>
  The trial statistics handed to the aggregation: the elapsed microseconds of the
  trials \<open>0\<close> to \<open>trials - 1\<close>, as doubles, and the formulas of the aggregation
  over them, each operation in the arithmetic of the doubles. \<open>dsum\<close> adds from
  left to right.
\<close>

definition elapsed :: "'cs world \<Rightarrow> int \<Rightarrow> double list" where
  "elapsed w trials = map (\<lambda>trial. double_of_int (clock_us w trial)) [0..<nat trials]"

text \<open>The lower of a lowest time so far and a new time (line 227).\<close>

definition lower :: "double \<Rightarrow> double \<Rightarrow> double" where
  "lower m x = (if dless x m then x else m)"

definition dsum :: "double list \<Rightarrow> double" where
  "dsum xs = foldl dadd (Fin 0) xs"

definition spec_mean :: "double list \<Rightarrow> int \<Rightarrow> nat \<Rightarrow> double" where
  "spec_mean stats trials eventCount =
     ddiv (ddiv (dsum stats) (double_of_int trials)) (double_of_size eventCount)"

definition spec_variance :: "double list \<Rightarrow> int \<Rightarrow> double" where
  "spec_variance stats trials =
     dmul (ddiv (double_of_int trials) (double_of_int (trials - 1)))
       (dsub (ddiv (dsum (map (\<lambda>x. dmul x x) stats)) (double_of_int trials))
             (dmul (ddiv (dsum stats) (double_of_int trials))
                   (ddiv (dsum stats) (double_of_int trials))))"


text \<open>
  The four lines of the statistics as functions of the elapsed times, the trial count
  and the event count.
\<close>

definition aggregate :: "'cs world \<Rightarrow> int \<Rightarrow> nat \<Rightarrow> statistics" where
  "aggregate w trials n =
     \<lparr>processed = n, times = trials,
      total_time = ddiv (dsum (elapsed w trials)) (double_of_int trials),
      mean_per_event = spec_mean (elapsed w trials) trials n,
      sigma_per_event =
        ddiv (if trials > 1 then dsqrt (spec_variance (elapsed w trials) trials) else Fin 0)
          (double_of_size n),
      lowest_per_event =
        ddiv (foldl lower (Fin (10 ^ 20)) (elapsed w trials)) (double_of_size n)\<rparr>"

text \<open>A least element of the statistics: one that no other is below.\<close>

definition least_of :: "double list \<Rightarrow> double \<Rightarrow> bool" where
  "least_of stats m = (m \<in> set stats \<and> (\<forall>x \<in> set stats. \<not> dless x m))"

section \<open>Runs that reach the trial loop\<close>

text \<open>
  A command line of fastjet-finder that passes the three exits before the trial loop,
  and the event store that each harness hands to its trial loop.
\<close>

definition finder_configured :: "finder_options \<Rightarrow> bool" where
  "finder_configured opts =
     (help_option opts \<noteq> 1 \<and> selection_sum opts = 1
      \<and> select_algorithm (alg_option opts) (power_option opts) \<noteq> None)"

definition finder_store :: "'cs world \<Rightarrow> finder_options \<Rightarrow> PseudoJet list list" where
  "finder_store w opts =
     result_events
       (read_input_events (open_file w (fst (input_file_argument (extra_args opts))))
          (max_events_option opts))"

definition inclusive_store :: "'cs world \<Rightarrow> inclusive_vars \<Rightarrow> string list \<Rightarrow> PseudoJet list list" where
  "inclusive_store w v args =
     result_events (read_input_events (open_file w (args ! 0)) (inc_maxevents v))"

text \<open>
  The stream of the dump is usable: none is asked for, or it is standard output, or
  \<^verbatim>\<open>fopen\<close> has returned a stream.
\<close>

definition dump_opens :: "'cs world \<Rightarrow> string option \<Rightarrow> bool" where
  "dump_opens w dump = (open_dump w dump \<noteq> None)"

text \<open>The names that \<^verbatim>\<open>--algorithm\<close> knows (fastjet-finder.cc lines 144 to 159).\<close>

definition algorithm_names :: "string list" where
  "algorithm_names = [''AntiKt'', ''CA'', ''Kt'', ''GenKt'', ''Durham'', ''EEKt'']"

section \<open>The events of the source, as the specification words them\<close>

text \<open>
  The events the external source decodes are those before its first failure;
  \<open>bounded maxevents k\<close> is what the bound lets through once \<open>k\<close> events are parsed;
  \<open>to_pseudojet\<close> copies the four-momentum of a particle.
\<close>

definition to_pseudojet :: "GenParticle \<Rightarrow> PseudoJet" where
  "to_pseudojet p =
     PseudoJet (px (momentum p)) (py (momentum p)) (pz (momentum p)) (e (momentum p))"

fun decoded :: "GenEvent option list \<Rightarrow> GenEvent list" where
  "decoded (Some evt # rest) = evt # decoded rest"
| "decoded _ = []"

definition bounded :: "int \<Rightarrow> int \<Rightarrow> 'a list \<Rightarrow> 'a list" where
  "bounded maxevents k xs = (if maxevents \<ge> 0 then take (nat (maxevents - k)) xs else xs)"

definition source_events :: "ReaderAscii \<Rightarrow> int \<Rightarrow> GenEvent list" where
  "source_events input_file maxevents =
     (if failed input_file then [] else bounded maxevents 0 (decoded (pending input_file)))"

section \<open>A concrete world and concrete command lines\<close>

text \<open>
  A file of two events (the first holds a particle of status 2 beside a stable one), a
  world whose clustering returns its input particles, whose clock measures 10, 12,
  14, ... microseconds and in which \<^verbatim>\<open>jets.txt\<close> is the one file that can be opened
  for writing, the defaults of fastjet-finder.cc lines 78 to 85, and the
  command lines at which the theorems below are evaluated.
\<close>

definition stable_particle :: GenParticle where
  "stable_particle = \<lparr>status = 1, momentum = FourVector (Fin 3) (Fin 4) (Fin 0) (Fin 5)\<rparr>"

definition decayed_particle :: GenParticle where
  "decayed_particle = \<lparr>status = 2, momentum = FourVector (Fin 1) (Fin 0) (Fin 0) (Fin 1)\<rparr>"

definition example_file :: ReaderAscii where
  "example_file =
     \<lparr>failed = False,
      pending = [Some [stable_particle, decayed_particle], Some [stable_particle]],
      reads = 0\<rparr>"

definition missing_file :: ReaderAscii where
  "missing_file = \<lparr>failed = True, pending = [], reads = 0\<rparr>"

definition example_world :: "PseudoJet list world" where
  "example_world =
     \<lparr>ClusterSequence = (\<lambda>particles jet_definition. particles),
      inclusive_jets = (\<lambda>cs ptmin. cs),
      exclusive_jets_dcut = (\<lambda>cs dcut. cs),
      exclusive_jets_njets = (\<lambda>cs njets. take (nat njets) cs),
      sorted_by_pt = (\<lambda>jets. jets),
      rap = (\<lambda>jet. Fin 0),
      phi = (\<lambda>jet. Fin 0),
      perp = (\<lambda>jet. Fin 5),
      open_file = (\<lambda>fname. if fname = ''events.hepmc3'' then example_file else missing_file),
      fopen = (\<lambda>fname. if fname = ''jets.txt'' then Some (named fname) else None),
      clock_us = (\<lambda>trial. 10 + 2 * int trial),
      stoi = (\<lambda>s. if s = ''0'' then Some 0 else if s = ''1'' then Some 1
                 else if s = ''2'' then Some 2 else None),
      stod = (\<lambda>s. None)\<rparr>"

definition finder_defaults :: finder_options where
  "finder_defaults =
     \<lparr>help_option = 0, max_events_option = - 1, skip_events_option = 0, trials_option = 1,
      strategy_option = ''Best'', power_option = Fin (- 1), alg_option = [],
      radius_option = Fin 0.4, ptmin_option = None, dijmax_option = None, njets_option = None,
      dump_option = None, debug_clusterseq_option = False, extra_args = []\<rparr>"

definition finder_example :: finder_options where
  "finder_example = finder_defaults\<lparr>ptmin_option := Some (Fin 0), extra_args := [''events.hepmc3'']\<rparr>"

definition stable_jet :: PseudoJet where
  "stable_jet = PseudoJet (Fin 3) (Fin 4) (Fin 0) (Fin 5)"


definition finder_no_events :: finder_options where
  "finder_no_events = finder_example\<lparr>extra_args := [''empty.hepmc3'']\<rparr>"

definition finder_no_trials :: finder_options where
  "finder_no_trials = finder_example\<lparr>trials_option := 0\<rparr>"

definition finder_help_only :: finder_options where
  "finder_help_only = finder_defaults\<lparr>help_option := 1\<rparr>"

definition finder_no_selection :: finder_options where
  "finder_no_selection = finder_defaults\<lparr>extra_args := [''events.hepmc3'']\<rparr>"

definition finder_two_selections :: finder_options where
  "finder_two_selections = finder_example\<lparr>njets_option := Some 2\<rparr>"

definition finder_help_example :: finder_options where
  "finder_help_example = finder_example\<lparr>help_option := 1\<rparr>"

definition finder_unknown_algorithm :: finder_options where
  "finder_unknown_algorithm = finder_example\<lparr>alg_option := ''SISCone''\<rparr>"

definition finder_skip_back :: finder_options where
  "finder_skip_back = finder_example\<lparr>skip_events_option := - 1\<rparr>"

definition finder_skip_one :: finder_options where
  "finder_skip_one = finder_example\<lparr>skip_events_option := 1, trials_option := 2\<rparr>"

definition finder_dump_unopened :: finder_options where
  "finder_dump_unopened = finder_example\<lparr>dump_option := Some ''/nonexistent-dir/jets.txt''\<rparr>"

text \<open>A world in which every trial takes 154981285 microseconds.\<close>

definition steady_world :: "PseudoJet list world" where
  "steady_world = example_world\<lparr>clock_us := (\<lambda>trial. 154981285)\<rparr>"

definition finder_three_trials :: finder_options where
  "finder_three_trials = finder_example\<lparr>trials_option := 3\<rparr>"

section \<open>Rounding to binary64\<close>

lemma round_even_of_int [simp]: "round_even (of_int m) = m"
  by (simp add: round_even_def)

lemma round_even_bounds: "\<lfloor>x\<rfloor> \<le> round_even x" "round_even x \<le> \<lfloor>x\<rfloor> + 1"
  by (simp_all add: round_even_def Let_def)

lemma floor_log2_less:
  assumes "0 < x" and "x < 2 powi ex"
  shows "\<lfloor>log 2 x\<rfloor> < ex"
proof -
  have "x < 2 powr (real_of_int ex)"
    using assms(2) by (simp add: powr_real_of_int')
  then have "log 2 x < real_of_int ex"
    using assms(1) less_log_iff[of 2 x "real_of_int ex"] le_log_iff[of 2 x "real_of_int ex"]
    by (simp add: not_le[symmetric])
  then show ?thesis by (simp add: floor_less_iff)
qed

lemma floor_log2_ge:
  assumes "2 powi ex \<le> x"
  shows "ex \<le> \<lfloor>log 2 x\<rfloor>"
proof -
  have "(0::real) < 2 powi ex" by simp
  with assms have x: "0 < x" by linarith
  have "2 powr (real_of_int ex) \<le> x"
    using assms by (simp add: powr_real_of_int')
  then have "real_of_int ex \<le> log 2 x"
    using x by (simp add: le_log_iff)
  then show ?thesis by (simp add: le_floor_iff)
qed

lemma binade_eq:
  assumes "2 powi ex \<le> \<bar>x\<bar>" and "\<bar>x\<bar> < 2 powi (ex + 1)" and "- 1022 \<le> ex"
  shows "binade x = ex"
proof -
  have "(0::real) < 2 powi ex" by simp
  with assms(1) have x: "0 < \<bar>x\<bar>" by linarith
  have "\<lfloor>log 2 \<bar>x\<bar>\<rfloor> < ex + 1" using floor_log2_less[OF x assms(2)] .
  moreover have "ex \<le> \<lfloor>log 2 \<bar>x\<bar>\<rfloor>" using floor_log2_ge[OF assms(1)] .
  ultimately show ?thesis using assms(3) by (simp add: binade_def)
qed

lemma binade_le:
  assumes "x \<noteq> 0" and "\<bar>x\<bar> < 2 powi (ex + 1)" and "- 1022 \<le> ex"
  shows "binade x \<le> ex"
proof -
  have x: "0 < \<bar>x\<bar>" using assms(1) by simp
  have "\<lfloor>log 2 \<bar>x\<bar>\<rfloor> < ex + 1" using floor_log2_less[OF x assms(2)] .
  then show ?thesis using assms(3) by (simp add: binade_def)
qed

lemma round64_exact:
  assumes "\<bar>m\<bar> < 2 ^ 53" and "- 1074 \<le> k" and "k \<le> 971"
  shows "round64 (of_int m * 2 powi k) = Fin (of_int m * 2 powi k)"
proof (cases "m = 0")
  case True
  then show ?thesis by (simp add: round64_def)
next
  case False
  let ?x = "real_of_int m * 2 powi k"
  have x0: "?x \<noteq> 0" using False by simp
  have ax: "\<bar>?x\<bar> = real_of_int \<bar>m\<bar> * 2 powi k"
    by (simp add: abs_mult)
  have "real_of_int \<bar>m\<bar> < real_of_int (2 ^ 53)"
    using assms(1) by (simp only: of_int_less_iff)
  then have m: "real_of_int \<bar>m\<bar> < 2 powi 53"
    by simp
  have "\<bar>?x\<bar> < 2 powi 53 * 2 powi k"
    unfolding ax using m by (rule mult_strict_right_mono) simp
  also have "(2::real) powi 53 * 2 powi k = 2 powi (k + 52 + 1)"
  proof -
    have "(2::real) powi (k + 52 + 1) = 2 powi (53 + k)"
      by (simp add: add.commute)
    also have "\<dots> = 2 powi 53 * 2 powi k"
      by (rule power_int_add) simp
    finally show ?thesis by (rule sym)
  qed
  finally have lt: "\<bar>?x\<bar> < 2 powi (k + 52 + 1)" .
  have b: "binade ?x \<le> k + 52"
    using assms(2) by (intro binade_le[OF x0 lt]) simp
  define d where "d = nat (k + 52 - binade ?x)"
  define u :: real where "u = 2 powi (binade ?x - 52)"
  have u: "0 < u" by (simp add: u_def)
  have d: "k = int d + (binade ?x - 52)" using b by (simp add: d_def)
  have "(2::real) powi k = 2 powi (int d + (binade ?x - 52))"
    using d by simp
  also have "\<dots> = 2 powi (int d) * u"
    unfolding u_def by (rule power_int_add) simp
  finally have k: "2 powi k = (2::real) ^ d * u" by simp
  have q: "?x / u = of_int (m * 2 ^ d)"
    using u by (simp add: k)
  have y: "of_int (round_even (?x / u)) * u = ?x"
    unfolding q round_even_of_int using u by (simp add: k)
  have "(2::real) powi (k + 52 + 1) \<le> 2 powi 1024"
    using assms(3) by (intro power_int_increasing) simp_all
  with lt have no: "\<not> 2 powi 1024 \<le> \<bar>?x\<bar>" by linarith
  have "round64 ?x =
          (if 2 powi 1024 \<le> \<bar>of_int (round_even (?x / u)) * u\<bar> then dsigned_inf (0 < ?x)
           else Fin (of_int (round_even (?x / u)) * u))"
    using x0 unfolding round64_def Let_def u_def by (simp only: if_False)
  also have "\<dots> = Fin ?x"
    unfolding y using no by (simp only: if_False)
  finally show ?thesis .
qed

lemma round64_of_int:
  assumes "\<bar>n\<bar> < 2 ^ 53"
  shows "round64 (of_int n) = Fin (of_int n)"
  using round64_exact[OF assms, of 0] by simp

lemma round64_zero [simp]: "round64 0 = Fin 0"
  by (simp add: round64_def)


lemma binade_floor:
  assumes "2 powi ex \<le> \<bar>x\<bar>" and "- 1022 \<le> ex"
  shows "binade x = \<lfloor>log 2 \<bar>x\<bar>\<rfloor>" and "ex \<le> binade x"
  using floor_log2_ge[OF assms(1)] assms(2) by (simp_all add: binade_def)

lemma abs_below_next_binade:
  assumes "x \<noteq> 0"
  shows "\<bar>x\<bar> < 2 powi (binade x + 1)"
proof -
  have x: "0 < \<bar>x\<bar>" using assms by simp
  have "log 2 \<bar>x\<bar> < real_of_int (\<lfloor>log 2 \<bar>x\<bar>\<rfloor> + 1)"
    by linarith
  also have "\<dots> \<le> real_of_int (binade x + 1)"
    by (simp add: binade_def)
  finally have "log 2 \<bar>x\<bar> < real_of_int (binade x + 1)" .
  then have "\<bar>x\<bar> < 2 powr real_of_int (binade x + 1)"
    using x log_less_iff[of 2 "\<bar>x\<bar>" "real_of_int (binade x + 1)"] by simp
  moreover have "(2::real) powr real_of_int (binade x + 1) = 2 powi (binade x + 1)"
    by (rule powr_real_of_int') simp_all
  ultimately show ?thesis by (simp only:)
qed

lemma at_least_binade:
  assumes "2 powi ex \<le> \<bar>x\<bar>" and "- 1022 \<le> ex"
  shows "2 powi (binade x) \<le> \<bar>x\<bar>"
proof -
  have "(0::real) < 2 powi ex" by simp
  with assms(1) have x: "0 < \<bar>x\<bar>" by linarith
  have "real_of_int \<lfloor>log 2 \<bar>x\<bar>\<rfloor> \<le> log 2 \<bar>x\<bar>" by simp
  then have "2 powr real_of_int \<lfloor>log 2 \<bar>x\<bar>\<rfloor> \<le> \<bar>x\<bar>"
    using x le_log_iff[of 2 "\<bar>x\<bar>" "real_of_int \<lfloor>log 2 \<bar>x\<bar>\<rfloor>"] by simp
  moreover have "(2::real) powr real_of_int \<lfloor>log 2 \<bar>x\<bar>\<rfloor> = 2 powi \<lfloor>log 2 \<bar>x\<bar>\<rfloor>"
    by (rule powr_real_of_int') simp_all
  ultimately show ?thesis
    by (simp only: binade_floor(1)[OF assms])
qed

text \<open>A positive real of at least \<open>2 powi ex\<close> is not rounded below \<open>2 powi ex\<close>.\<close>

lemma round64_at_least:
  assumes "2 powi ex \<le> x" and "- 1022 \<le> ex"
  shows "round64 x = PInf \<or> (\<exists>y. round64 x = Fin y \<and> 2 powi ex \<le> y)"
proof -
  have "(0::real) < 2 powi ex" by simp
  with assms(1) have x: "0 < x" by linarith
  then have ax: "\<bar>x\<bar> = x" by simp
  define u :: real where "u = 2 powi (binade x - 52)"
  have u: "0 < u" by (simp add: u_def)
  have b: "2 powi (binade x) \<le> x" "ex \<le> binade x"
    using at_least_binade[of ex x] binade_floor(2)[of ex x] assms ax by simp_all
  have "binade x = 52 + (binade x - 52)" by simp
  then have "(2::real) powi (binade x) = 2 powi (52 + (binade x - 52))"
    by (simp only:)
  also have "\<dots> = 2 powi 52 * u"
    unfolding u_def by (rule power_int_add) simp
  finally have bu: "(2::real) powi (binade x) = 2 powi 52 * u" .
  have "2 powi 52 \<le> x / u"
    using b(1) u by (simp add: bu pos_le_divide_eq)
  then have "real_of_int (2 ^ 52) \<le> x / u" by simp
  then have "2 ^ 52 \<le> \<lfloor>x / u\<rfloor>" by (simp only: le_floor_iff)
  then have r: "2 ^ 52 \<le> round_even (x / u)"
    using round_even_bounds(1)[of "x / u"] by linarith
  define y where "y = real_of_int (round_even (x / u)) * u"
  have "real_of_int (2 ^ 52) \<le> real_of_int (round_even (x / u))"
    using r by (simp only: of_int_le_iff)
  then have "2 powi 52 * u \<le> y"
    unfolding y_def using u by (simp add: mult_right_mono)
  then have "2 powi (binade x) \<le> y" by (simp add: bu)
  moreover have "(2::real) powi ex \<le> 2 powi (binade x)"
    using b(2) by (intro power_int_increasing) simp_all
  ultimately have ey: "2 powi ex \<le> y" by linarith
  have "round64 x = (if 2 powi 1024 \<le> \<bar>y\<bar> then dsigned_inf (0 < x) else Fin y)"
    using x unfolding round64_def Let_def u_def y_def by simp
  with x ey show ?thesis by (cases "2 powi 1024 \<le> \<bar>y\<bar>") simp_all
qed

text \<open>A positive real below \<open>2 powi (ex + 1)\<close> is not rounded above it.\<close>

lemma round64_at_most:
  assumes "0 < x" and "x < 2 powi (ex + 1)" and "- 1022 \<le> ex" and "ex \<le> 1022"
  shows "\<exists>y. round64 x = Fin y \<and> 0 \<le> y \<and> y \<le> 2 powi (ex + 1)"
proof -
  have x0: "x \<noteq> 0" and ax: "\<bar>x\<bar> = x" using assms(1) by simp_all
  define u :: real where "u = 2 powi (binade x - 52)"
  have u: "0 < u" by (simp add: u_def)
  have b: "binade x \<le> ex"
    using binade_le[OF x0 _ assms(3)] assms(2) ax by simp
  have "binade x + 1 = 53 + (binade x - 52)" by simp
  then have "(2::real) powi (binade x + 1) = 2 powi (53 + (binade x - 52))"
    by (simp only:)
  also have "\<dots> = 2 powi 53 * u"
    unfolding u_def by (rule power_int_add) simp
  finally have bu: "(2::real) powi (binade x + 1) = 2 powi 53 * u" .
  have "x < 2 powi 53 * u"
    using abs_below_next_binade[OF x0] ax by (simp add: bu)
  then have "x / u < 2 powi 53"
    using u by (simp add: pos_divide_less_eq)
  then have "x / u < real_of_int (2 ^ 53)" by simp
  then have "\<lfloor>x / u\<rfloor> < 2 ^ 53" by (simp only: floor_less_iff)
  then have r: "round_even (x / u) \<le> 2 ^ 53"
    using round_even_bounds(2)[of "x / u"] by linarith
  have "0 \<le> x / u" using assms(1) u by simp
  then have "0 \<le> \<lfloor>x / u\<rfloor>" by simp
  then have r0: "0 \<le> round_even (x / u)"
    using round_even_bounds(1)[of "x / u"] by linarith
  define y where "y = real_of_int (round_even (x / u)) * u"
  have y0: "0 \<le> y" unfolding y_def using r0 u by simp
  have "real_of_int (round_even (x / u)) \<le> real_of_int (2 ^ 53)"
    using r by (simp only: of_int_le_iff)
  then have "y \<le> 2 powi 53 * u"
    unfolding y_def using u by (simp add: mult_right_mono)
  then have yb: "y \<le> 2 powi (binade x + 1)" by (simp add: bu)
  have "(2::real) powi (binade x + 1) \<le> 2 powi (ex + 1)"
    using b by (intro power_int_increasing) simp_all
  with yb have ye: "y \<le> 2 powi (ex + 1)" by linarith
  have "(2::real) powi (ex + 1) < 2 powi 1024"
    using assms(4) by (intro power_int_strict_increasing) simp_all
  with ye y0 have no: "\<not> 2 powi 1024 \<le> \<bar>y\<bar>" by simp
  have "round64 x = (if 2 powi 1024 \<le> \<bar>y\<bar> then dsigned_inf (0 < x) else Fin y)"
    using x0 unfolding round64_def Let_def u_def y_def by simp
  with no y0 ye show ?thesis by simp
qed

text \<open>
  The rounding of a real whose binary exponent is known, for the evaluation at given
  numbers.
\<close>

lemma round64_in_binade:
  assumes "2 powi ex \<le> \<bar>x\<bar>" and "\<bar>x\<bar> < 2 powi (ex + 1)" and "- 1022 \<le> ex"
    and "\<bar>real_of_int (round_even (x / 2 powi (ex - 52))) * 2 powi (ex - 52)\<bar> < 2 powi 1024"
  shows "round64 x = Fin (real_of_int (round_even (x / 2 powi (ex - 52))) * 2 powi (ex - 52))"
proof -
  have "(0::real) < 2 powi ex" by simp
  with assms(1) have "0 < \<bar>x\<bar>" by linarith
  then have x0: "x \<noteq> 0" by simp
  have b: "binade x = ex" using binade_eq[OF assms(1,2,3)] .
  show ?thesis
    using x0 assms(4) unfolding round64_def Let_def b by simp
qed

section \<open>Loading the events\<close>

lemma read_loop_stop:
  "failed (reader st) \<or> (0 \<le> maxevents \<and> maxevents \<le> events_parsed st) \<Longrightarrow>
   read_loop maxevents st = st"
  by (subst read_loop.simps) auto

text \<open>
  C10. With \<open>maxevents = 0\<close> the loop of \<^verbatim>\<open>read_input_events\<close> leaves at the bound check
  before the first \<^verbatim>\<open>read_event\<close>: the vector returned is empty, the count printed is
  zero, and the reader is as it was constructed, so no call of \<^verbatim>\<open>read_event\<close> was made
  and no event of the source was consumed.
\<close>

theorem read_input_events_maxevents_zero:
  "result_events (read_input_events input_file 0) = []
   \<and> events_parsed (read_input_events input_file 0) = 0
   \<and> reader (read_input_events input_file 0) = input_file
   \<and> reads (reader (read_input_events input_file 0)) = reads input_file"
  by (simp add: read_input_events_def read_loop_stop)

lemma read_loop_next:
  "\<not> failed (reader st) \<Longrightarrow> maxevents < 0 \<or> events_parsed st < maxevents \<Longrightarrow>
   pending (reader st) = Some evt # rest \<Longrightarrow>
   read_loop maxevents st =
     read_loop maxevents
       \<lparr>reader = (reader st)\<lparr>pending := rest, reads := reads (reader st) + 1\<rparr>,
        events_parsed = events_parsed st + 1,
        result_events = result_events st @ [input_particles evt]\<rparr>"
  by (subst read_loop.simps) (auto simp: read_event_def)

lemma read_loop_fail:
  "\<not> failed (reader st) \<Longrightarrow> maxevents < 0 \<or> events_parsed st < maxevents \<Longrightarrow>
   pending (reader st) = [] \<or> (\<exists>rest. pending (reader st) = None # rest) \<Longrightarrow>
   read_loop maxevents st = st\<lparr>reader := snd (read_event (reader st))\<rparr>"
  by (subst read_loop.simps) (auto simp: read_event_def)

lemma example_read:
  "result_events (read_input_events example_file (- 1)) = [[stable_jet], [stable_jet]]"
  by (simp add: read_input_events_def example_file_def read_loop_next read_loop_fail
      stable_particle_def decayed_particle_def stable_jet_def)

section \<open>What the loader keeps\<close>

lemma input_particles_filter:
  "input_particles evt = map to_pseudojet (filter (\<lambda>p. status p = 1) evt)"
  by (induction evt) (simp_all add: to_pseudojet_def)

lemma bounded_Cons:
  assumes "maxevents < 0 \<or> k < maxevents"
  shows "bounded maxevents k (x # xs) = x # bounded maxevents (k + 1) xs"
proof (cases "maxevents \<ge> 0")
  case True
  with assms have "nat (maxevents - k) = Suc (nat (maxevents - (k + 1)))"
    by linarith
  with True show ?thesis by (simp add: bounded_def)
next
  case False
  then show ?thesis by (simp add: bounded_def)
qed

lemma read_loop_events:
  "result_events (read_loop maxevents st) =
     result_events st @
       (if failed (reader st) then []
        else map input_particles
               (bounded maxevents (events_parsed st) (decoded (pending (reader st)))))"
proof (induction maxevents st rule: read_loop.induct)
  case (1 maxevents st)
  show ?case
  proof (cases "failed (reader st) \<or> (maxevents \<ge> 0 \<and> events_parsed st \<ge> maxevents)")
    case True
    then show ?thesis by (auto simp: read_loop_stop bounded_def)
  next
    case False
    then have nf: "\<not> failed (reader st)"
      and nb: "maxevents < 0 \<or> events_parsed st < maxevents"
      and nb': "\<not> (maxevents \<ge> 0 \<and> events_parsed st \<ge> maxevents)"
      by auto
    show ?thesis
    proof (cases "pending (reader st)")
      case Nil
      with nf nb show ?thesis by (simp add: read_loop_fail bounded_def)
    next
      case (Cons x rest)
      show ?thesis
      proof (cases x)
        case None
        with Cons nf nb show ?thesis by (simp add: read_loop_fail bounded_def)
      next
        case (Some evt)
        let ?rd = "(reader st)\<lparr>pending := rest, reads := reads (reader st) + 1\<rparr>"
        have re: "(evt, ?rd) = read_event (reader st)"
          using Cons Some by (simp add: read_event_def)
        have nf': "\<not> failed ?rd" using nf by simp
        from "1.IH"[OF nf nb' re nf'] nf Cons Some show ?thesis
          by (simp add: read_loop_next[OF nf nb] bounded_Cons[OF nb])
      qed
    qed
  qed
qed

lemma read_loop_count:
  "events_parsed (read_loop maxevents st) - int (length (result_events (read_loop maxevents st))) =
     events_parsed st - int (length (result_events st))"
proof (induction maxevents st rule: read_loop.induct)
  case (1 maxevents st)
  show ?case
  proof (cases "failed (reader st) \<or> (maxevents \<ge> 0 \<and> events_parsed st \<ge> maxevents)")
    case True
    then show ?thesis by (auto simp: read_loop_stop)
  next
    case False
    then have nf: "\<not> failed (reader st)"
      and nb: "maxevents < 0 \<or> events_parsed st < maxevents"
      and nb': "\<not> (maxevents \<ge> 0 \<and> events_parsed st \<ge> maxevents)"
      by auto
    show ?thesis
    proof (cases "pending (reader st)")
      case Nil
      with nf nb show ?thesis by (simp add: read_loop_fail)
    next
      case (Cons x rest)
      show ?thesis
      proof (cases x)
        case None
        with Cons nf nb show ?thesis by (simp add: read_loop_fail)
      next
        case (Some evt)
        let ?rd = "(reader st)\<lparr>pending := rest, reads := reads (reader st) + 1\<rparr>"
        have re: "(evt, ?rd) = read_event (reader st)"
          using Cons Some by (simp add: read_event_def)
        have nf': "\<not> failed ?rd" using nf by simp
        from "1.IH"[OF nf nb' re nf'] nf Cons Some show ?thesis
          by (simp add: read_loop_next[OF nf nb])
      qed
    qed
  qed
qed

text \<open>
  C7, as amended. For a source of fewer than \<open>2 ^ 31\<close> events,
  \<^verbatim>\<open>read_input_events\<close> returns one entry for every event the source decodes before
  its first failure and within the bound \<open>maxevents\<close>, in the order of the source;
  the entry holds the four-momenta of the particles of status 1 of that event, in their
  order, and no other particle. The count it prints is the number of these events.
\<close>

theorem read_input_events_keeps_status_one:
  assumes "length (pending input_file) < 2 ^ 31"
  shows "result_events (read_input_events input_file maxevents) =
           map (\<lambda>evt. map to_pseudojet (filter (\<lambda>p. status p = 1) evt))
             (source_events input_file maxevents)
         \<and> events_parsed (read_input_events input_file maxevents) =
           int (length (source_events input_file maxevents))"
proof -
  have ev: "result_events (read_input_events input_file maxevents) =
           map (\<lambda>evt. map to_pseudojet (filter (\<lambda>p. status p = 1) evt))
             (source_events input_file maxevents)"
    using read_loop_events[of maxevents "\<lparr>reader = input_file, events_parsed = 0, result_events = []\<rparr>"]
    by (simp add: read_input_events_def source_events_def input_particles_filter[abs_def])
  have "events_parsed (read_input_events input_file maxevents) =
          int (length (result_events (read_input_events input_file maxevents)))"
    using read_loop_count[of maxevents "\<lparr>reader = input_file, events_parsed = 0, result_events = []\<rparr>"]
    by (simp add: read_input_events_def)
  with ev show ?thesis by simp
qed

text \<open>The theorem at the two-event file with \<open>maxevents = 1\<close>.\<close>

theorem read_input_events_keeps_status_one_witness:
  "length (pending example_file) < 2 ^ 31
   \<and> source_events example_file 1 = [[stable_particle, decayed_particle]]
   \<and> result_events (read_input_events example_file 1) = [[to_pseudojet stable_particle]]
   \<and> events_parsed (read_input_events example_file 1) = 1"
proof -
  have h: "length (pending example_file) < 2 ^ 31"
    by (simp add: example_file_def)
  have s: "source_events example_file 1 = [[stable_particle, decayed_particle]]"
    by (simp add: source_events_def example_file_def bounded_def)
  from read_input_events_keeps_status_one[OF h, of 1] h s show ?thesis
    by (simp add: stable_particle_def decayed_particle_def)
qed

text \<open>
  C7 as the specification states it fails: the first event of the example file holds a
  particle of status 2, which \<^verbatim>\<open>read_input_events\<close> itself leaves out.
\<close>

theorem read_input_events_unchanged_counterexample:
  "source_events example_file (- 1) = [[stable_particle, decayed_particle], [stable_particle]]
   \<and> result_events (read_input_events example_file (- 1)) =
       [[to_pseudojet stable_particle], [to_pseudojet stable_particle]]
   \<and> result_events (read_input_events example_file (- 1)) \<noteq>
       map (map to_pseudojet) (source_events example_file (- 1))"
proof -
  have s: "source_events example_file (- 1) =
             [[stable_particle, decayed_particle], [stable_particle]]"
    by (simp add: source_events_def example_file_def bounded_def)
  have j: "to_pseudojet stable_particle = stable_jet"
    by (simp add: to_pseudojet_def stable_particle_def stable_jet_def)
  show ?thesis
    by (simp add: s j example_read)
qed

section \<open>The trial loop, the event loops and the two programs\<close>

lemma trial_loop_done:
  "\<not> int trial < trials \<Longrightarrow> trial_loop w event_pass trials trial st = st"
  by (subst trial_loop.simps) simp

lemma trial_loop_step:
  "int trial < trials \<Longrightarrow> \<not> died (event_pass trial) \<Longrightarrow>
   trial_loop w event_pass trials trial st =
     trial_loop w event_pass trials (trial + 1) (trial_body w (event_pass trial) trial st)"
  by (subst trial_loop.simps) (simp add: Let_def)

lemma trial_loop_dies:
  "int trial < trials \<Longrightarrow> died (event_pass trial) \<Longrightarrow>
   trial_loop w event_pass trials trial st =
     st\<lparr>trial_logs := trial_logs st @ [event_pass trial], killed := True\<rparr>"
  by (subst trial_loop.simps) (simp add: Let_def)

lemma upt_step: "int trial < trials \<Longrightarrow> [trial..<nat trials] = trial # [trial + 1..<nat trials]"
  by (simp add: upt_conv_Cons)

lemma trial_body_fields [simp]:
  "time_total (trial_body w pass trial st) =
     dadd (time_total st) (double_of_int (clock_us w trial))"
  "time_total2 (trial_body w pass trial st) =
     dadd (time_total2 st)
       (dmul (double_of_int (clock_us w trial)) (double_of_int (clock_us w trial)))"
  "time_lowest (trial_body w pass trial st) =
     lower (time_lowest st) (double_of_int (clock_us w trial))"
  "trial_logs (trial_body w pass trial st) = trial_logs st @ [pass]"
  "killed (trial_body w pass trial st) = killed st"
  by (simp_all add: trial_body_def Let_def lower_def)

lemma trial_loop_alive:
  "(\<And>t. \<not> died (event_pass t)) \<Longrightarrow>
   killed (trial_loop w event_pass trials trial st) = killed st"
proof (induction w event_pass trials trial st rule: trial_loop.induct)
  case (1 w event_pass trials trial st)
  show ?case
  proof (cases "int trial < trials")
    case True
    have a: "\<not> died (event_pass trial)" using "1.prems" .
    from "1.IH"[OF True refl a "1.prems"] show ?thesis
      by (simp add: trial_loop_step[where event_pass = event_pass, OF True a])
  next
    case False
    then show ?thesis by (simp add: trial_loop_done)
  qed
qed

lemma trial_loop_invariant:
  assumes "\<not> killed (trial_loop w event_pass trials trial st)"
  shows "trial_logs (trial_loop w event_pass trials trial st) =
           trial_logs st @ map event_pass [trial..<nat trials]
       \<and> (\<forall>t \<in> set [trial..<nat trials]. \<not> died (event_pass t))
       \<and> time_total (trial_loop w event_pass trials trial st) =
           foldl dadd (time_total st)
             (map (\<lambda>t. double_of_int (clock_us w t)) [trial..<nat trials])
       \<and> time_total2 (trial_loop w event_pass trials trial st) =
           foldl dadd (time_total2 st)
             (map (\<lambda>x. dmul x x) (map (\<lambda>t. double_of_int (clock_us w t)) [trial..<nat trials]))
       \<and> time_lowest (trial_loop w event_pass trials trial st) =
           foldl lower (time_lowest st)
             (map (\<lambda>t. double_of_int (clock_us w t)) [trial..<nat trials])"
  using assms
proof (induction w event_pass trials trial st rule: trial_loop.induct)
  case (1 w event_pass trials trial st)
  show ?case
  proof (cases "int trial < trials")
    case True
    have a: "\<not> died (event_pass trial)"
      using "1.prems" True by (auto simp: trial_loop_dies)
    from "1.prems" have n: "\<not> killed (trial_loop w event_pass trials (trial + 1)
                                 (trial_body w (event_pass trial) trial st))"
      by (simp add: trial_loop_step[where event_pass = event_pass, OF True a])
    from "1.IH"[OF True refl a n] a show ?thesis
      by (simp add: trial_loop_step[where event_pass = event_pass, OF True a] upt_step[OF True])
  next
    case False
    then show ?thesis by (simp add: trial_loop_done)
  qed
qed

lemma trial_loop_completed:
  assumes "\<not> killed (trial_loop w event_pass trials trial st)"
  shows "trial_logs (trial_loop w event_pass trials trial st) =
           trial_logs st @ map event_pass [trial..<nat trials]"
    and "\<forall>t \<in> set [trial..<nat trials]. \<not> died (event_pass t)"
    and "time_total (trial_loop w event_pass trials trial st) =
           foldl dadd (time_total st)
             (map (\<lambda>t. double_of_int (clock_us w t)) [trial..<nat trials])"
    and "time_total2 (trial_loop w event_pass trials trial st) =
           foldl dadd (time_total2 st)
             (map (\<lambda>x. dmul x x) (map (\<lambda>t. double_of_int (clock_us w t)) [trial..<nat trials]))"
    and "time_lowest (trial_loop w event_pass trials trial st) =
           foldl lower (time_lowest st)
             (map (\<lambda>t. double_of_int (clock_us w t)) [trial..<nat trials])"
  using trial_loop_invariant[OF assms] by blast+

lemma statistics_completed:
  assumes "\<not> killed (trial_loop w event_pass trials 0 initial_state)"
  shows "statistics trials n (trial_loop w event_pass trials 0 initial_state) =
           aggregate w trials n"
  using trial_loop_completed(3,4,5)[OF assms]
  by (simp add: statistics_def Let_def initial_state_def elapsed_def dsum_def spec_mean_def
      spec_variance_def aggregate_def)

lemma ddiv_zero_by_count:
  assumes "1 \<le> n"
  shows "ddiv (Fin 0) (double_of_size n) = Fin 0"
proof -
  have "2 powi 0 \<le> real n" using assms by simp
  from round64_at_least[OF this] consider "double_of_size n = PInf"
    | y where "double_of_size n = Fin y" "1 \<le> y"
    by (auto simp: double_of_size_def)
  then show ?thesis
    by cases simp_all
qed

lemma dsigned_inf_not_finite: "dsigned_inf b \<noteq> Fin y"
  by (cases b) simp_all

lemma ddiv_by_zero_not_finite: "ddiv x (double_of_size 0) \<noteq> Fin y"
  by (cases x) (simp_all add: double_of_size_def dsigned_inf_not_finite)

lemma ddiv_Fin_zero_not_finite: "ddiv x (Fin 0) \<noteq> Fin y"
  using ddiv_by_zero_not_finite[of x y] by (simp add: double_of_size_def)

lemma statistics_no_trials:
  assumes "trials \<le> 0"
  shows "statistics trials n (trial_loop w event_pass trials 0 initial_state) =
           \<lparr>processed = n, times = trials,
            total_time = ddiv (Fin 0) (double_of_int trials),
            mean_per_event = ddiv (ddiv (Fin 0) (double_of_int trials)) (double_of_size n),
            sigma_per_event = ddiv (Fin 0) (double_of_size n),
            lowest_per_event = ddiv (Fin (10 ^ 20)) (double_of_size n)\<rparr>"
  using assms by (simp add: trial_loop_done statistics_def initial_state_def Let_def)

lemma event_loop_done:
  "\<not> ievt < length events \<Longrightarrow>
   event_loop w opts dump_fh strategy algorithm p events trial ievt acc = acc"
  by (subst event_loop.simps) simp

lemma event_loop_silent:
  "ievt < length events \<Longrightarrow> \<not> (is_set (dump_option opts) \<and> trial = 0) \<Longrightarrow>
   event_loop w opts dump_fh strategy algorithm p events trial ievt acc =
     event_loop w opts dump_fh strategy algorithm p events trial (ievt + 1)
       (acc\<lparr>clustered := clustered acc @ [(ievt, events ! ievt)]\<rparr>)"
  by (subst event_loop.simps) (auto simp: Let_def)

lemma event_loop_writes:
  "ievt < length events \<Longrightarrow> is_set (dump_option opts) \<Longrightarrow> trial = 0 \<Longrightarrow> dump_fh = Some fh \<Longrightarrow>
   event_loop w opts dump_fh strategy algorithm p events trial ievt acc =
     event_loop w opts dump_fh strategy algorithm p events trial (ievt + 1)
       (acc\<lparr>clustered := clustered acc @ [(ievt, events ! ievt)],
            dumped := dumped acc
              @ jet_lines w ievt
                  (final_jets w opts
                     (run_fastjet_clustering w (events ! ievt) strategy algorithm
                        (radius_option opts) p))
              @ (if debug_clusterseq_option opts
                 then [ClusterSeqDump
                         (run_fastjet_clustering w (events ! ievt) strategy algorithm
                            (radius_option opts) p)]
                 else [])\<rparr>)"
  by (subst event_loop.simps) (auto simp: Let_def)

lemma event_loop_dies:
  "ievt < length events \<Longrightarrow> is_set (dump_option opts) \<Longrightarrow> trial = 0 \<Longrightarrow> dump_fh = None \<Longrightarrow>
   event_loop w opts dump_fh strategy algorithm p events trial ievt acc =
     acc\<lparr>clustered := clustered acc @ [(ievt, events ! ievt)], died := True\<rparr>"
  by (subst event_loop.simps) (auto simp: Let_def)

lemma event_loop_alive:
  assumes "dump_fh \<noteq> None \<or> \<not> is_set (dump_option opts) \<or> trial \<noteq> 0"
  shows "died (event_loop w opts dump_fh strategy algorithm p events trial ievt acc) = died acc"
  using assms
proof (induction w opts dump_fh strategy algorithm p events trial ievt acc
    rule: event_loop.induct)
  case (1 w opts dump_fh strategy algorithm p events trial ievt acc)
  show ?case
  proof (cases "ievt < length events")
    case False
    then show ?thesis by (simp add: event_loop_done)
  next
    case True
    show ?thesis
    proof (cases "is_set (dump_option opts) \<and> trial = 0")
      case False
      from "1.IH"(2)[OF True refl refl refl False "1.prems"] show ?thesis
        by (simp add: event_loop_silent[OF True False])
    next
      case w: True
      with "1.prems" obtain fh where fh: "dump_fh = Some fh" by auto
      from w have d: "is_set (dump_option opts)" and t: "trial = 0" by simp_all
      from "1.IH"(1)[OF True refl refl refl w fh "1.prems"] show ?thesis
        by (simp add: event_loop_writes[OF True d t fh])
    qed
  qed
qed

lemma event_loop_clustered:
  assumes "\<not> died (event_loop w opts dump_fh strategy algorithm p events trial ievt acc)"
  shows "clustered (event_loop w opts dump_fh strategy algorithm p events trial ievt acc) =
           clustered acc @ map (\<lambda>i. (i, events ! i)) [ievt..<length events]"
  using assms
proof (induction w opts dump_fh strategy algorithm p events trial ievt acc
    rule: event_loop.induct)
  case (1 w opts dump_fh strategy algorithm p events trial ievt acc)
  show ?case
  proof (cases "ievt < length events")
    case False
    then show ?thesis by (simp add: event_loop_done)
  next
    case True
    then have u: "[ievt..<length events] = ievt # [ievt + 1..<length events]"
      by (simp add: upt_conv_Cons)
    show ?thesis
    proof (cases "is_set (dump_option opts) \<and> trial = 0")
      case False
      from "1.prems" have n: "\<not> died (event_loop w opts dump_fh strategy algorithm p events
          trial (ievt + 1) (acc\<lparr>clustered := clustered acc @ [(ievt, events ! ievt)]\<rparr>))"
        by (simp add: event_loop_silent[OF True False])
      from "1.IH"(2)[OF True refl refl refl False n] show ?thesis
        by (simp add: event_loop_silent[OF True False] u)
    next
      case w: True
      from w have d: "is_set (dump_option opts)" and t: "trial = 0" by simp_all
      show ?thesis
      proof (cases dump_fh)
        case None
        have "died (event_loop w opts dump_fh strategy algorithm p events trial ievt acc)"
          by (simp add: event_loop_dies[OF True d t None])
        with "1.prems" show ?thesis by simp
      next
        case (Some fh)
        from "1.prems" have n: "\<not> died (event_loop w opts dump_fh strategy algorithm p events trial (ievt + 1)
       (acc\<lparr>clustered := clustered acc @ [(ievt, events ! ievt)],
            dumped := dumped acc
              @ jet_lines w ievt
                  (final_jets w opts
                     (run_fastjet_clustering w (events ! ievt) strategy algorithm
                        (radius_option opts) p))
              @ (if debug_clusterseq_option opts
                 then [ClusterSeqDump
                         (run_fastjet_clustering w (events ! ievt) strategy algorithm
                            (radius_option opts) p)]
                 else [])\<rparr>))"
          by (simp add: event_loop_writes[OF True d t Some])
        from "1.IH"(1)[OF True refl refl refl w Some] n show ?thesis
          by (simp add: event_loop_writes[OF True d t Some] u)
      qed
    qed
  qed
qed

lemma event_loop_dumped_later:
  "trial \<noteq> 0 \<Longrightarrow>
   dumped (event_loop w opts dump_fh strategy algorithm p events trial ievt acc) = dumped acc"
proof (induction w opts dump_fh strategy algorithm p events trial ievt acc
    rule: event_loop.induct)
  case (1 w opts dump_fh strategy algorithm p events trial ievt acc)
  show ?case
  proof (cases "ievt < length events")
    case False
    then show ?thesis by (simp add: event_loop_done)
  next
    case True
    from "1.prems" have f: "\<not> (is_set (dump_option opts) \<and> trial = 0)" by simp
    from "1.IH"(2)[OF True refl refl refl f "1.prems"] show ?thesis
      by (simp add: event_loop_silent[OF True f])
  qed
qed

lemma inclusive_event_loop_done:
  "\<not> ievt < length events \<Longrightarrow>
   inclusive_event_loop w v dump_fh strategy algorithm events trial ievt acc = acc"
  by (subst inclusive_event_loop.simps) simp

lemma inclusive_event_loop_silent:
  "ievt < length events \<Longrightarrow> \<not> inc_dump v \<Longrightarrow>
   inclusive_event_loop w v dump_fh strategy algorithm events trial ievt acc =
     inclusive_event_loop w v dump_fh strategy algorithm events trial (ievt + 1)
       (acc\<lparr>clustered := clustered acc @ [(ievt, events ! ievt)]\<rparr>)"
  by (subst inclusive_event_loop.simps) (auto simp: Let_def)

lemma inclusive_event_loop_writes:
  "ievt < length events \<Longrightarrow> inc_dump v \<Longrightarrow> dump_fh = Some fh \<Longrightarrow>
   inclusive_event_loop w v dump_fh strategy algorithm events trial ievt acc =
     inclusive_event_loop w v dump_fh strategy algorithm events trial (ievt + 1)
       (acc\<lparr>clustered := clustered acc @ [(ievt, events ! ievt)],
            dumped := dumped acc
              @ jet_lines w ievt
                  (run_fastjet_clustering_inclusive w (events ! ievt) strategy algorithm
                     (inc_R v) (inc_ptmin v))\<rparr>)"
  by (subst inclusive_event_loop.simps) (auto simp: Let_def)

lemma inclusive_event_loop_dies:
  "ievt < length events \<Longrightarrow> inc_dump v \<Longrightarrow> dump_fh = None \<Longrightarrow>
   inclusive_event_loop w v dump_fh strategy algorithm events trial ievt acc =
     acc\<lparr>clustered := clustered acc @ [(ievt, events ! ievt)], died := True\<rparr>"
  by (subst inclusive_event_loop.simps) (auto simp: Let_def)

lemma inclusive_event_loop_alive:
  assumes "dump_fh \<noteq> None \<or> \<not> inc_dump v"
  shows "died (inclusive_event_loop w v dump_fh strategy algorithm events trial ievt acc) =
           died acc"
  using assms
proof (induction w v dump_fh strategy algorithm events trial ievt acc
    rule: inclusive_event_loop.induct)
  case (1 w v dump_fh strategy algorithm events trial ievt acc)
  show ?case
  proof (cases "ievt < length events")
    case False
    then show ?thesis by (simp add: inclusive_event_loop_done)
  next
    case True
    show ?thesis
    proof (cases "inc_dump v")
      case False
      from "1.IH"(2)[OF True refl refl False "1.prems"] show ?thesis
        by (simp add: inclusive_event_loop_silent[OF True False])
    next
      case d: True
      with "1.prems" obtain fh where fh: "dump_fh = Some fh" by auto
      from "1.IH"(1)[OF True refl refl d fh "1.prems"] show ?thesis
        by (simp add: inclusive_event_loop_writes[OF True d fh])
    qed
  qed
qed

lemma after_trials_fields [simp]:
  "ending (after_trials said loaded trials st) = (if killed st then Crash else Exit 0)"
  "diagnostics (after_trials said loaded trials st) = said"
  "input (after_trials said loaded trials st) = Some loaded"
  "trials_run (after_trials said loaded trials st) = trial_logs st"
  "report (after_trials said loaded trials st) =
     (if killed st then None
      else Some (statistics trials (length (result_events loaded)) st))"
  by (simp_all add: after_trials_def exit_with_def)

lemma stopped_fields [simp]:
  "ending (stopped c ds inp) = exit_with c"
  "diagnostics (stopped c ds inp) = ds"
  "input (stopped c ds inp) = inp"
  "trials_run (stopped c ds inp) = []"
  "report (stopped c ds inp) = None"
  by (simp_all add: stopped_def)

lemma initial_state_fields [simp]:
  "trial_logs initial_state = []" "killed initial_state = False"
  by (simp_all add: initial_state_def)

lemma finder_main_configured:
  assumes "finder_configured opts"
  obtains strategy algorithm p where
    "finder_main w opts =
       after_trials (snd (input_file_argument (extra_args opts)))
         (read_input_events (open_file w (fst (input_file_argument (extra_args opts))))
            (max_events_option opts))
         (trials_option opts)
         (trial_loop w
            (\<lambda>trial. event_loop w opts (open_dump w (dump_option opts)) strategy algorithm p
                      (finder_store w opts) trial (size_t_of_int (skip_events_option opts))
                      no_calls)
            (trials_option opts) 0 initial_state)"
proof -
  from assms obtain algorithm p where
    sel: "select_algorithm (alg_option opts) (power_option opts) = Some (algorithm, p)"
    by (auto simp: finder_configured_def)
  from assms have h: "help_option opts \<noteq> 1" and s: "selection_sum opts = 1"
    by (simp_all add: finder_configured_def)
  have "finder_main w opts =
       after_trials (snd (input_file_argument (extra_args opts)))
         (read_input_events (open_file w (fst (input_file_argument (extra_args opts))))
            (max_events_option opts))
         (trials_option opts)
         (trial_loop w
            (\<lambda>trial. event_loop w opts (open_dump w (dump_option opts))
                      (set_strategy (strategy_option opts)) algorithm p
                      (finder_store w opts) trial (size_t_of_int (skip_events_option opts))
                      no_calls)
            (trials_option opts) 0 initial_state)"
    using h s sel
    by (simp add: finder_main_def Let_def finder_store_def split: prod.splits)
  then show thesis by (rule that)
qed

text \<open>
  A run of fastjet-finder that passes the exits before the trial loop: its outcome is
  that of the trial loop over some event pass; a pass that is not killed clusters the
  events from \<^verbatim>\<open>skip_events\<close> on; a pass other than the first writes no dump and is not
  killed; and no pass is killed when the dump stream is usable or there is no event.
\<close>

lemma finder_run:
  assumes "finder_configured opts"
  obtains event_pass where
    "finder_main w opts =
       after_trials (snd (input_file_argument (extra_args opts)))
         (read_input_events (open_file w (fst (input_file_argument (extra_args opts))))
            (max_events_option opts))
         (trials_option opts)
         (trial_loop w event_pass (trials_option opts) 0 initial_state)"
    "\<And>trial. \<not> died (event_pass trial) \<Longrightarrow>
       clustered (event_pass trial) =
         map (\<lambda>i. (i, finder_store w opts ! i))
           [size_t_of_int (skip_events_option opts)..<length (finder_store w opts)]"
    "\<And>trial. trial \<noteq> 0 \<Longrightarrow> dumped (event_pass trial) = [] \<and> \<not> died (event_pass trial)"
    "dump_opens w (dump_option opts) \<or> finder_store w opts = [] \<Longrightarrow>
       (\<forall>trial. \<not> died (event_pass trial))"
proof -
  from assms obtain strategy algorithm p where
    f: "finder_main w opts =
       after_trials (snd (input_file_argument (extra_args opts)))
         (read_input_events (open_file w (fst (input_file_argument (extra_args opts))))
            (max_events_option opts))
         (trials_option opts)
         (trial_loop w
            (\<lambda>trial. event_loop w opts (open_dump w (dump_option opts)) strategy algorithm p
                      (finder_store w opts) trial (size_t_of_int (skip_events_option opts))
                      no_calls)
            (trials_option opts) 0 initial_state)"
    by (rule finder_main_configured)
  let ?pass = "\<lambda>trial. event_loop w opts (open_dump w (dump_option opts)) strategy algorithm p
                      (finder_store w opts) trial (size_t_of_int (skip_events_option opts))
                      no_calls"
  show thesis
  proof (rule that[of ?pass])
    show "finder_main w opts =
       after_trials (snd (input_file_argument (extra_args opts)))
         (read_input_events (open_file w (fst (input_file_argument (extra_args opts))))
            (max_events_option opts))
         (trials_option opts)
         (trial_loop w ?pass (trials_option opts) 0 initial_state)"
      by (rule f)
    show "clustered (?pass trial) =
         map (\<lambda>i. (i, finder_store w opts ! i))
           [size_t_of_int (skip_events_option opts)..<length (finder_store w opts)]"
      if "\<not> died (?pass trial)" for trial
      using event_loop_clustered[OF that] by (simp add: no_calls_def)
    show "dumped (?pass trial) = [] \<and> \<not> died (?pass trial)" if "trial \<noteq> 0" for trial
      using that by (simp add: event_loop_dumped_later event_loop_alive no_calls_def)
    show "\<forall>trial. \<not> died (?pass trial)"
      if "dump_opens w (dump_option opts) \<or> finder_store w opts = []"
    proof (cases "finder_store w opts = []")
      case True
      then show ?thesis by (simp add: event_loop_done no_calls_def)
    next
      case False
      with that have "open_dump w (dump_option opts) \<noteq> None"
        by (simp add: dump_opens_def)
      then show ?thesis by (simp add: event_loop_alive no_calls_def)
    qed
  qed
qed

text \<open>The same for fastjet-inclusive, whose dump is written in every pass.\<close>

lemma inclusive_run:
  assumes "getopt_loop w opts inclusive_defaults = Inr v" and "length args = 1"
  obtains event_pass where
    "inclusive_main w opts args =
       after_trials [] (read_input_events (open_file w (args ! 0)) (inc_maxevents v))
         (inc_trials v) (trial_loop w event_pass (inc_trials v) 0 initial_state)"
    "dump_opens w (if inc_dump v then Some (inc_dump_file v) else None)
       \<or> inclusive_store w v args = [] \<Longrightarrow> (\<forall>trial. \<not> died (event_pass trial))"
proof -
  let ?fh = "open_dump w (if inc_dump v then Some (inc_dump_file v) else None)"
  let ?pass = "\<lambda>trial. inclusive_event_loop w v ?fh (set_strategy (inc_mystrategy v))
                 (inclusive_algorithm (inc_power v)) (inclusive_store w v args) trial 0 no_calls"
  show thesis
  proof (rule that[of ?pass])
    show "inclusive_main w opts args =
       after_trials [] (read_input_events (open_file w (args ! 0)) (inc_maxevents v))
         (inc_trials v) (trial_loop w ?pass (inc_trials v) 0 initial_state)"
      using assms by (simp add: inclusive_main_def Let_def inclusive_store_def)
    show "\<forall>trial. \<not> died (?pass trial)"
      if "dump_opens w (if inc_dump v then Some (inc_dump_file v) else None)
            \<or> inclusive_store w v args = []"
    proof (cases "inclusive_store w v args = []")
      case True
      then show ?thesis by (simp add: inclusive_event_loop_done no_calls_def)
    next
      case False
      with that have "?fh \<noteq> None" by (simp add: dump_opens_def)
      then show ?thesis by (simp add: inclusive_event_loop_alive no_calls_def)
    qed
  qed
qed

section \<open>Runs at given numbers, and what a run prints\<close>

lemma round64_numeral:
  "(numeral n :: int) < 2 ^ 53 \<Longrightarrow> round64 (numeral n) = Fin (numeral n)"
  using round64_of_int[of "numeral n"] by simp

lemma round64_one: "round64 1 = Fin 1"
  using round64_of_int[of 1] by simp

lemma round64_numeral_half:
  "(numeral n :: int) < 2 ^ 53 \<Longrightarrow> round64 (numeral n / 2) = Fin (numeral n / 2)"
  using round64_exact[of "numeral n" "- 1"] by (simp add: power_int_minus field_simps)

lemma double_of_small:
  "double_of_int 0 = Fin 0" "double_of_int 1 = Fin 1"
  "(numeral n :: int) < 2 ^ 53 \<Longrightarrow> double_of_int (numeral n) = Fin (numeral n)"
  "double_of_size 0 = Fin 0" "double_of_size 1 = Fin 1"
  "(numeral n :: int) < 2 ^ 53 \<Longrightarrow> double_of_size (numeral n) = Fin (numeral n)"
  "double_of_size (Suc (Suc 0)) = Fin 2"
  using round64_numeral[of "num.Bit0 num.One"]
  by (simp_all add: double_of_int_def double_of_size_def round64_numeral round64_one)

lemma ptmin_only_configured:
  "help_option opts = 0 \<Longrightarrow> ptmin_option opts = Some x \<Longrightarrow> dijmax_option opts = None \<Longrightarrow>
   njets_option opts = None \<Longrightarrow> alg_option opts = [] \<Longrightarrow> finder_configured opts"
  by (simp add: finder_configured_def selection_sum_def is_set_def select_algorithm_def)

lemma example_store:
  "extra_args opts = [''events.hepmc3''] \<Longrightarrow> max_events_option opts = - 1 \<Longrightarrow>
   finder_store example_world opts = [[stable_jet], [stable_jet]]"
  by (simp add: finder_store_def input_file_argument_def example_world_def example_read)

lemma example_inclusive_store:
  "inc_maxevents v = - 1 \<Longrightarrow>
   inclusive_store example_world v [''events.hepmc3''] = [[stable_jet], [stable_jet]]"
  by (simp add: inclusive_store_def example_world_def example_read)

lemma example_elapsed:
  "elapsed example_world 1 = [Fin 10]"
  "elapsed example_world 2 = [Fin 10, Fin 12]"
  by (simp_all add: elapsed_def example_world_def upt_rec double_of_small)

text \<open>A run without a dump has a usable dump stream.\<close>

lemma no_dump_opens [simp]: "dump_opens w None"
  by (simp add: dump_opens_def open_dump_def)

lemma stdout_dump_opens [simp]: "dump_opens w (Some ''-'')"
  by (simp add: dump_opens_def open_dump_def)

lemma finder_main_help:
  "help_option opts = 1 \<Longrightarrow> finder_main w opts = stopped EXIT_SUCCESS [HelpText] None"
  by (simp add: finder_main_def)

lemma finder_main_selection:
  "help_option opts \<noteq> 1 \<Longrightarrow> selection_sum opts \<noteq> 1 \<Longrightarrow>
   finder_main w opts =
     stopped EXIT_FAILURE
       (snd (input_file_argument (extra_args opts)) @ [SelectionCount (selection_sum opts)]) None"
  by (simp add: finder_main_def Let_def split: prod.splits)

lemma finder_main_unknown_algorithm:
  "help_option opts \<noteq> 1 \<Longrightarrow> selection_sum opts = 1 \<Longrightarrow>
   select_algorithm (alg_option opts) (power_option opts) = None \<Longrightarrow>
   finder_main w opts =
     stopped 1 (snd (input_file_argument (extra_args opts)) @ [UnknownAlgorithm (alg_option opts)])
       (Some (read_input_events (open_file w (fst (input_file_argument (extra_args opts))))
                (max_events_option opts)))"
  by (simp add: finder_main_def Let_def split: prod.splits)

lemma finder_main_reads:
  "help_option opts \<noteq> 1 \<Longrightarrow> selection_sum opts = 1 \<Longrightarrow>
   input (finder_main w opts) =
     Some (read_input_events (open_file w (fst (input_file_argument (extra_args opts))))
             (max_events_option opts))"
  by (cases "select_algorithm (alg_option opts) (power_option opts)")
     (auto simp: finder_main_def Let_def split: prod.splits)

lemma exit_codes [simp]:
  "exit_with EXIT_SUCCESS = Exit 0" "exit_with EXIT_FAILURE = Exit 1"
  "exit_with 1 = Exit 1" "exit_with (- 1) = Exit 255" "exit_with 0 = Exit 0"
  by (simp_all add: exit_with_def EXIT_SUCCESS_def EXIT_FAILURE_def)

lemma select_algorithm_unknown:
  "select_algorithm alg p = None \<longleftrightarrow> alg \<noteq> [] \<and> alg \<notin> set algorithm_names"
  by (simp add: select_algorithm_def algorithm_names_def)

lemma inclusive_main_stops:
  "getopt_loop w iopts inclusive_defaults = Inl Help \<Longrightarrow>
   inclusive_main w iopts args = stopped (- 1) [HelpText] None"
  "getopt_loop w iopts inclusive_defaults = Inl Usage \<Longrightarrow>
   inclusive_main w iopts args = stopped EXIT_FAILURE [UsageLine] None"
  "getopt_loop w iopts inclusive_defaults = Inl Uncaught \<Longrightarrow>
   inclusive_main w iopts args =
     \<lparr>ending = Abort, diagnostics = [], input = None, trials_run = [], report = None\<rparr>"
  "getopt_loop w iopts inclusive_defaults = Inr v \<Longrightarrow> length args = 0 \<Longrightarrow>
   inclusive_main w iopts args = stopped EXIT_FAILURE [NoInputFileArgument, UsageLine] None"
  "getopt_loop w iopts inclusive_defaults = Inr v \<Longrightarrow> length args > 1 \<Longrightarrow>
   inclusive_main w iopts args =
     stopped EXIT_FAILURE [UnexpectedArguments (tl args), UsageLine] None"
  by (auto simp: inclusive_main_def)

text \<open>
  The statistics are printed, and the exit code is 0, exactly in the runs that pass
  the exits before the trial loop and are not killed in it; what is printed is then
  the aggregate of the elapsed times.
\<close>

lemma finder_printed:
  assumes "report (finder_main w opts) = Some r"
  shows "finder_configured opts"
    and "r = aggregate w (trials_option opts) (length (finder_store w opts))"
    and "ending (finder_main w opts) = Exit 0"
    and "length (trials_run (finder_main w opts)) = nat (trials_option opts)"
    and "\<forall>pass \<in> set (trials_run (finder_main w opts)).
           \<not> died pass
           \<and> clustered pass =
               map (\<lambda>i. (i, finder_store w opts ! i))
                 [size_t_of_int (skip_events_option opts)..<length (finder_store w opts)]"
proof -
  show c: "finder_configured opts"
  proof (rule ccontr)
    assume n: "\<not> finder_configured opts"
    show False
    proof (cases "help_option opts = 1")
      case True
      with assms show False by (simp add: finder_main_help)
    next
      case h: False
      show False
      proof (cases "selection_sum opts = 1")
        case False
        with h assms show False by (simp add: finder_main_selection)
      next
        case True
        with h n have "select_algorithm (alg_option opts) (power_option opts) = None"
          unfolding finder_configured_def by blast
        with h True assms show False by (simp add: finder_main_unknown_algorithm)
      qed
    qed
  qed
  from c obtain event_pass where
    f: "finder_main w opts =
       after_trials (snd (input_file_argument (extra_args opts)))
         (read_input_events (open_file w (fst (input_file_argument (extra_args opts))))
            (max_events_option opts))
         (trials_option opts)
         (trial_loop w event_pass (trials_option opts) 0 initial_state)"
    and cl: "\<And>trial. \<not> died (event_pass trial) \<Longrightarrow>
       clustered (event_pass trial) =
         map (\<lambda>i. (i, finder_store w opts ! i))
           [size_t_of_int (skip_events_option opts)..<length (finder_store w opts)]"
    by (rule finder_run[where w = w]) blast
  from assms have k: "\<not> killed (trial_loop w event_pass (trials_option opts) 0 initial_state)"
    by (auto simp: f split: if_splits)
  from assms show "r = aggregate w (trials_option opts) (length (finder_store w opts))"
    by (simp add: f k statistics_completed[OF k] finder_store_def)
  show "ending (finder_main w opts) = Exit 0"
    by (simp add: f k)
  show "length (trials_run (finder_main w opts)) = nat (trials_option opts)"
    by (simp add: f trial_loop_completed(1)[OF k])
  show "\<forall>pass \<in> set (trials_run (finder_main w opts)).
           \<not> died pass
           \<and> clustered pass =
               map (\<lambda>i. (i, finder_store w opts ! i))
                 [size_t_of_int (skip_events_option opts)..<length (finder_store w opts)]"
    using trial_loop_completed(2)[OF k] cl
    by (auto simp: f trial_loop_completed(1)[OF k])
qed

lemma inclusive_printed:
  assumes "getopt_loop w iopts inclusive_defaults = Inr v"
    and "report (inclusive_main w iopts args) = Some r"
  shows "length args = 1"
    and "r = aggregate w (inc_trials v) (length (inclusive_store w v args))"
    and "ending (inclusive_main w iopts args) = Exit 0"
proof -
  show l: "length args = 1"
  proof (rule ccontr)
    assume "length args \<noteq> 1"
    then have "length args = 0 \<or> length args > 1" by linarith
    with assms show False by (auto simp: inclusive_main_stops)
  qed
  from assms(1) l obtain event_pass where
    f: "inclusive_main w iopts args =
       after_trials [] (read_input_events (open_file w (args ! 0)) (inc_maxevents v))
         (inc_trials v) (trial_loop w event_pass (inc_trials v) 0 initial_state)"
    by (rule inclusive_run[where w = w]) blast
  from assms(2) have k: "\<not> killed (trial_loop w event_pass (inc_trials v) 0 initial_state)"
    by (auto simp: f split: if_splits)
  from assms(2) show "r = aggregate w (inc_trials v) (length (inclusive_store w v args))"
    by (simp add: f k statistics_completed[OF k] inclusive_store_def)
  show "ending (inclusive_main w iopts args) = Exit 0"
    by (simp add: f k)
qed

text \<open>A run in which no pass is killed prints its statistics.\<close>

lemma finder_completes:
  assumes "finder_configured opts"
    and "dump_opens w (dump_option opts) \<or> finder_store w opts = []"
  shows "report (finder_main w opts) =
           Some (aggregate w (trials_option opts) (length (finder_store w opts)))"
proof -
  from assms(1) obtain event_pass where
    f: "finder_main w opts =
       after_trials (snd (input_file_argument (extra_args opts)))
         (read_input_events (open_file w (fst (input_file_argument (extra_args opts))))
            (max_events_option opts))
         (trials_option opts)
         (trial_loop w event_pass (trials_option opts) 0 initial_state)"
    and a: "dump_opens w (dump_option opts) \<or> finder_store w opts = [] \<Longrightarrow>
       (\<forall>trial. \<not> died (event_pass trial))"
    by (rule finder_run[where w = w]) blast
  from a[OF assms(2)] have
    k: "\<not> killed (trial_loop w event_pass (trials_option opts) 0 initial_state)"
    by (simp add: trial_loop_alive)
  show ?thesis
    by (simp add: f k statistics_completed[OF k] finder_store_def)
qed

lemma inclusive_completes:
  assumes "getopt_loop w iopts inclusive_defaults = Inr v" and "length args = 1"
    and "dump_opens w (if inc_dump v then Some (inc_dump_file v) else None)
           \<or> inclusive_store w v args = []"
  shows "report (inclusive_main w iopts args) =
           Some (aggregate w (inc_trials v) (length (inclusive_store w v args)))"
proof -
  from assms(1,2) obtain event_pass where
    f: "inclusive_main w iopts args =
       after_trials [] (read_input_events (open_file w (args ! 0)) (inc_maxevents v))
         (inc_trials v) (trial_loop w event_pass (inc_trials v) 0 initial_state)"
    and a: "dump_opens w (if inc_dump v then Some (inc_dump_file v) else None)
       \<or> inclusive_store w v args = [] \<Longrightarrow> (\<forall>trial. \<not> died (event_pass trial))"
    by (rule inclusive_run[where w = w]) blast
  from a[OF assms(3)] have
    k: "\<not> killed (trial_loop w event_pass (inc_trials v) 0 initial_state)"
    by (simp add: trial_loop_alive)
  show ?thesis
    by (simp add: f k statistics_completed[OF k] inclusive_store_def)
qed

text \<open>Without a trial there is no pass in which to be killed.\<close>

lemma finder_no_trials_report:
  assumes "finder_configured opts" and "trials_option opts \<le> 0"
  shows "report (finder_main w opts) =
           Some (aggregate w (trials_option opts) (length (finder_store w opts)))"
    and "trials_run (finder_main w opts) = []"
proof -
  from assms(1) obtain event_pass where
    f: "finder_main w opts =
       after_trials (snd (input_file_argument (extra_args opts)))
         (read_input_events (open_file w (fst (input_file_argument (extra_args opts))))
            (max_events_option opts))
         (trials_option opts)
         (trial_loop w event_pass (trials_option opts) 0 initial_state)"
    by (rule finder_run[where w = w]) blast
  have d: "trial_loop w event_pass (trials_option opts) 0 initial_state = initial_state"
    using assms(2) by (simp add: trial_loop_done)
  then have k: "\<not> killed (trial_loop w event_pass (trials_option opts) 0 initial_state)"
    by simp
  show "report (finder_main w opts) =
           Some (aggregate w (trials_option opts) (length (finder_store w opts)))"
    by (simp add: f k statistics_completed[OF k] finder_store_def)
  show "trials_run (finder_main w opts) = []"
    by (simp add: f d)
qed

lemma inclusive_no_trials_report:
  assumes "getopt_loop w iopts inclusive_defaults = Inr v" and "length args = 1"
    and "inc_trials v \<le> 0"
  shows "report (inclusive_main w iopts args) =
           Some (aggregate w (inc_trials v) (length (inclusive_store w v args)))"
    and "trials_run (inclusive_main w iopts args) = []"
proof -
  from assms(1,2) obtain event_pass where
    f: "inclusive_main w iopts args =
       after_trials [] (read_input_events (open_file w (args ! 0)) (inc_maxevents v))
         (inc_trials v) (trial_loop w event_pass (inc_trials v) 0 initial_state)"
    by (rule inclusive_run[where w = w]) blast
  have d: "trial_loop w event_pass (inc_trials v) 0 initial_state = initial_state"
    using assms(3) by (simp add: trial_loop_done)
  then have k: "\<not> killed (trial_loop w event_pass (inc_trials v) 0 initial_state)"
    by simp
  show "report (inclusive_main w iopts args) =
           Some (aggregate w (inc_trials v) (length (inclusive_store w v args)))"
    by (simp add: f k statistics_completed[OF k] inclusive_store_def)
  show "trials_run (inclusive_main w iopts args) = []"
    by (simp add: f d)
qed

section \<open>The statistics of a run\<close>







section \<open>Runs without trials and runs without events\<close>

lemma zero_by_zero: "ddiv (Fin 0) (double_of_int 0) = NaN"
  by (simp add: double_of_int_def)

lemma aggregate_no_trials:
  "aggregate w 0 n =
     \<lparr>processed = n, times = 0,
      total_time = ddiv (Fin 0) (double_of_int 0),
      mean_per_event = ddiv (ddiv (Fin 0) (double_of_int 0)) (double_of_size n),
      sigma_per_event = ddiv (Fin 0) (double_of_size n),
      lowest_per_event = ddiv (Fin (10 ^ 20)) (double_of_size n)\<rparr>"
  by (simp add: aggregate_def spec_mean_def elapsed_def dsum_def)

text \<open>
  C9. In both harnesses a run with \<open>trials = 0\<close> that passes the exits before the
  trial loop makes no pass over the events. The statistics are printed all the same and
  the process ends with exit code 0: the total printed is the accumulated \<open>0.0\<close>
  divided by the trial count \<open>0\<close>, which is NaN, and the lowest time printed is the
  sentinel \<open>1.0e20\<close> divided by the event count.
\<close>

theorem zero_trials_unguarded:
  assumes "finder_configured opts"
    and "trials_option opts = 0"
    and "getopt_loop w' iopts inclusive_defaults = Inr v"
    and "length args = 1"
    and "inc_trials v = 0"
  shows "trials_run (finder_main w opts) = []
       \<and> ending (finder_main w opts) = Exit 0
       \<and> report (finder_main w opts) =
           Some \<lparr>processed = length (finder_store w opts), times = 0,
                 total_time = ddiv (Fin 0) (double_of_int 0),
                 mean_per_event =
                   ddiv (ddiv (Fin 0) (double_of_int 0))
                     (double_of_size (length (finder_store w opts))),
                 sigma_per_event = ddiv (Fin 0) (double_of_size (length (finder_store w opts))),
                 lowest_per_event =
                   ddiv (Fin (10 ^ 20)) (double_of_size (length (finder_store w opts)))\<rparr>
       \<and> trials_run (inclusive_main w' iopts args) = []
       \<and> ending (inclusive_main w' iopts args) = Exit 0
       \<and> report (inclusive_main w' iopts args) =
           Some \<lparr>processed = length (inclusive_store w' v args), times = 0,
                 total_time = ddiv (Fin 0) (double_of_int 0),
                 mean_per_event =
                   ddiv (ddiv (Fin 0) (double_of_int 0))
                     (double_of_size (length (inclusive_store w' v args))),
                 sigma_per_event =
                   ddiv (Fin 0) (double_of_size (length (inclusive_store w' v args))),
                 lowest_per_event =
                   ddiv (Fin (10 ^ 20)) (double_of_size (length (inclusive_store w' v args)))\<rparr>
       \<and> ddiv (Fin 0) (double_of_int 0) = NaN"
proof -
  have z: "trials_option opts \<le> 0" using assms(2) by simp
  note r = finder_no_trials_report[OF assms(1) z, of w]
  have f1: "trials_run (finder_main w opts) = []" by (rule r(2))
  have e: "ending (finder_main w opts) = Exit 0"
    using finder_printed(3)[OF r(1)] .
  have f2: "report (finder_main w opts) =
           Some \<lparr>processed = length (finder_store w opts), times = 0,
                 total_time = ddiv (Fin 0) (double_of_int 0),
                 mean_per_event =
                   ddiv (ddiv (Fin 0) (double_of_int 0))
                     (double_of_size (length (finder_store w opts))),
                 sigma_per_event = ddiv (Fin 0) (double_of_size (length (finder_store w opts))),
                 lowest_per_event =
                   ddiv (Fin (10 ^ 20)) (double_of_size (length (finder_store w opts)))\<rparr>"
    using r(1) unfolding assms(2) aggregate_no_trials .
  have zi: "inc_trials v \<le> 0" using assms(5) by simp
  note i = inclusive_no_trials_report[OF assms(3,4) zi]
  have i1: "trials_run (inclusive_main w' iopts args) = []" by (rule i(2))
  have i2: "ending (inclusive_main w' iopts args) = Exit 0"
    using inclusive_printed(3)[OF assms(3) i(1)] .
  have i3: "report (inclusive_main w' iopts args) =
           Some \<lparr>processed = length (inclusive_store w' v args), times = 0,
                 total_time = ddiv (Fin 0) (double_of_int 0),
                 mean_per_event =
                   ddiv (ddiv (Fin 0) (double_of_int 0))
                     (double_of_size (length (inclusive_store w' v args))),
                 sigma_per_event =
                   ddiv (Fin 0) (double_of_size (length (inclusive_store w' v args))),
                 lowest_per_event =
                   ddiv (Fin (10 ^ 20)) (double_of_size (length (inclusive_store w' v args)))\<rparr>"
    using i(1) unfolding assms(5) aggregate_no_trials .
  from f1 e f2 i1 i2 i3 zero_by_zero show ?thesis by blast
qed

lemma half_sentinel: "ddiv (Fin (10 ^ 20)) (double_of_size 2) = Fin (10 ^ 20 / 2)"
proof -
  have "round64 (real_of_int 95367431640625 * 2 powi 19) =
          Fin (real_of_int 95367431640625 * 2 powi 19)"
    by (rule round64_exact) simp_all
  moreover have "real_of_int 95367431640625 * 2 powi 19 = 10 ^ 20 / 2"
    by (simp add: power_int_def)
  ultimately have "round64 (10 ^ 20 / 2) = Fin (10 ^ 20 / 2)" by simp
  then show ?thesis by (simp add: double_of_small)
qed

lemma example_getopt_no_trials:
  "getopt_loop example_world [(CHR ''n'', ''0'')] inclusive_defaults =
     Inr (inclusive_defaults\<lparr>inc_trials := 0\<rparr>)"
  by (simp add: example_world_def)

text \<open>
  The theorem at \<^verbatim>\<open>--trials 0\<close> and \<^verbatim>\<open>-n 0\<close> over the two-event file: the total and the
  mean printed are NaN, the deviation is 0 and the lowest time is \<open>1.0e20 / 2\<close>.
\<close>

theorem zero_trials_unguarded_witness:
  "finder_configured finder_no_trials
   \<and> trials_option finder_no_trials = 0
   \<and> getopt_loop example_world [(CHR ''n'', ''0'')] inclusive_defaults =
       Inr (inclusive_defaults\<lparr>inc_trials := 0\<rparr>)
   \<and> trials_run (finder_main example_world finder_no_trials) = []
   \<and> ending (finder_main example_world finder_no_trials) = Exit 0
   \<and> report (finder_main example_world finder_no_trials) =
       Some \<lparr>processed = 2, times = 0, total_time = NaN, mean_per_event = NaN,
             sigma_per_event = Fin 0, lowest_per_event = Fin (10 ^ 20 / 2)\<rparr>
   \<and> trials_run (inclusive_main example_world [(CHR ''n'', ''0'')] [''events.hepmc3'']) = []
   \<and> ending (inclusive_main example_world [(CHR ''n'', ''0'')] [''events.hepmc3'']) = Exit 0
   \<and> report (inclusive_main example_world [(CHR ''n'', ''0'')] [''events.hepmc3'']) =
       Some \<lparr>processed = 2, times = 0, total_time = NaN, mean_per_event = NaN,
             sigma_per_event = Fin 0, lowest_per_event = Fin (10 ^ 20 / 2)\<rparr>"
proof -
  have c: "finder_configured finder_no_trials"
    by (rule ptmin_only_configured[of _ "Fin 0"])
       (simp_all add: finder_no_trials_def finder_example_def finder_defaults_def)
  have t: "trials_option finder_no_trials = 0"
    by (simp add: finder_no_trials_def)
  have s: "finder_store example_world finder_no_trials = [[stable_jet], [stable_jet]]"
    by (rule example_store)
       (simp_all add: finder_no_trials_def finder_example_def finder_defaults_def)
  have g: "getopt_loop example_world [(CHR ''n'', ''0'')] inclusive_defaults =
             Inr (inclusive_defaults\<lparr>inc_trials := 0\<rparr>)"
    by (rule example_getopt_no_trials)
  have si: "inclusive_store example_world (inclusive_defaults\<lparr>inc_trials := 0\<rparr>)
              [''events.hepmc3''] = [[stable_jet], [stable_jet]]"
    by (rule example_inclusive_store) (simp add: inclusive_defaults_def)
  have l: "length [''events.hepmc3''] = 1" by simp
  have z: "inc_trials (inclusive_defaults\<lparr>inc_trials := 0\<rparr>) = 0" by simp
  have n: "length (finder_store example_world finder_no_trials) = 2" by (simp add: s)
  have ni: "length (inclusive_store example_world (inclusive_defaults\<lparr>inc_trials := 0\<rparr>)
              [''events.hepmc3'']) = 2" by (simp add: si)
  have q: "ddiv (Fin 0) (double_of_size 2) = Fin 0"
    by (rule ddiv_zero_by_count) simp
  have m: "ddiv NaN (double_of_size 2) = NaN" by simp
  show ?thesis
    using zero_trials_unguarded[OF c t g l z, of example_world] c t g
    unfolding n ni zero_by_zero half_sentinel q m by blast
qed

lemma aggregate_no_events:
  "mean_per_event (aggregate w trials 0) = ddiv (total_time (aggregate w trials 0)) (Fin 0)"
  "mean_per_event (aggregate w trials 0) \<noteq> Fin y"
  "sigma_per_event (aggregate w trials 0) \<noteq> Fin y"
  "lowest_per_event (aggregate w trials 0) \<noteq> Fin y"
  "processed (aggregate w trials 0) = 0"
  by (simp_all add: aggregate_def spec_mean_def ddiv_by_zero_not_finite)
     (simp add: double_of_size_def)

text \<open>
  C2, as amended. In both harnesses a run that passes the exits before the trial loop
  with an event count of 0 is not rejected: the statistics are printed and the
  process ends with exit code 0. The mean printed is the total divided by zero, and none
  of the mean, the deviation and the lowest time is a finite number: each is NaN or an
  infinity.
\<close>

theorem empty_event_set_not_rejected:
  assumes "finder_configured opts"
    and "finder_store w opts = []"
    and "getopt_loop w' iopts inclusive_defaults = Inr v"
    and "length args = 1"
    and "inclusive_store w' v args = []"
  shows "ending (finder_main w opts) = Exit 0
       \<and> (\<exists>r. report (finder_main w opts) = Some r \<and> processed r = 0
              \<and> mean_per_event r = ddiv (total_time r) (Fin 0)
              \<and> (\<forall>y. mean_per_event r \<noteq> Fin y \<and> sigma_per_event r \<noteq> Fin y
                       \<and> lowest_per_event r \<noteq> Fin y))
       \<and> ending (inclusive_main w' iopts args) = Exit 0
       \<and> (\<exists>r. report (inclusive_main w' iopts args) = Some r \<and> processed r = 0
              \<and> mean_per_event r = ddiv (total_time r) (Fin 0)
              \<and> (\<forall>y. mean_per_event r \<noteq> Fin y \<and> sigma_per_event r \<noteq> Fin y
                       \<and> lowest_per_event r \<noteq> Fin y))"
proof -
  have d: "dump_opens w (dump_option opts) \<or> finder_store w opts = []"
    using assms(2) by simp
  have r: "report (finder_main w opts) = Some (aggregate w (trials_option opts) 0)"
    using finder_completes[OF assms(1) d] by (simp add: assms(2))
  have e: "ending (finder_main w opts) = Exit 0"
    using finder_printed(3)[OF r] .
  have f: "\<exists>r. report (finder_main w opts) = Some r \<and> processed r = 0
              \<and> mean_per_event r = ddiv (total_time r) (Fin 0)
              \<and> (\<forall>y. mean_per_event r \<noteq> Fin y \<and> sigma_per_event r \<noteq> Fin y
                       \<and> lowest_per_event r \<noteq> Fin y)"
    using aggregate_no_events[of w "trials_option opts"] by (simp add: r)
  have di: "dump_opens w' (if inc_dump v then Some (inc_dump_file v) else None)
              \<or> inclusive_store w' v args = []"
    using assms(5) by simp
  have ri: "report (inclusive_main w' iopts args) = Some (aggregate w' (inc_trials v) 0)"
    using inclusive_completes[OF assms(3,4) di] by (simp add: assms(5))
  have i1: "ending (inclusive_main w' iopts args) = Exit 0"
    using inclusive_printed(3)[OF assms(3) ri] .
  have i2: "\<exists>r. report (inclusive_main w' iopts args) = Some r \<and> processed r = 0
              \<and> mean_per_event r = ddiv (total_time r) (Fin 0)
              \<and> (\<forall>y. mean_per_event r \<noteq> Fin y \<and> sigma_per_event r \<noteq> Fin y
                       \<and> lowest_per_event r \<noteq> Fin y)"
    using aggregate_no_events[of w' "inc_trials v"] by (simp add: ri)
  from e f i1 i2 show ?thesis by blast
qed

lemma example_no_events:
  "result_events (read_input_events missing_file maxevents) = []"
  by (simp add: read_input_events_def read_loop_stop missing_file_def)

lemma finder_no_events_store: "finder_store example_world finder_no_events = []"
  by (simp add: finder_store_def finder_no_events_def finder_example_def finder_defaults_def
      input_file_argument_def example_world_def example_no_events)

lemma finder_no_events_configured: "finder_configured finder_no_events"
  by (rule ptmin_only_configured[of _ "Fin 0"])
     (simp_all add: finder_no_events_def finder_example_def finder_defaults_def)

text \<open>
  The theorem at a file that yields no event, for both harnesses with their default
  trial counts.
\<close>

theorem empty_event_set_not_rejected_witness:
  "finder_configured finder_no_events
   \<and> finder_store example_world finder_no_events = []
   \<and> getopt_loop example_world [] inclusive_defaults = Inr inclusive_defaults
   \<and> inclusive_store example_world inclusive_defaults [''empty.hepmc3''] = []
   \<and> ending (finder_main example_world finder_no_events) = Exit 0
   \<and> ending (inclusive_main example_world [] [''empty.hepmc3'']) = Exit 0
   \<and> map_option processed (report (finder_main example_world finder_no_events)) = Some 0
   \<and> map_option processed (report (inclusive_main example_world [] [''empty.hepmc3''])) = Some 0"
proof -
  have g: "getopt_loop example_world [] inclusive_defaults = Inr inclusive_defaults"
    by simp
  have l: "length [''empty.hepmc3''] = 1" by simp
  have si: "inclusive_store example_world inclusive_defaults [''empty.hepmc3''] = []"
    by (simp add: inclusive_store_def example_world_def example_no_events)
  show ?thesis
    using empty_event_set_not_rejected[OF finder_no_events_configured finder_no_events_store
        g l si]
      finder_no_events_configured finder_no_events_store g si
    by auto
qed

text \<open>
  C2 as the specification states it fails: fastjet-finder with \<^verbatim>\<open>--ptmin 0\<close> on a file that
  yields no event has an event count of 0, raises no error, prints a mean and a lowest
  time of plus infinity and a deviation of NaN, and ends with exit code 0.
\<close>

theorem empty_event_set_counterexample:
  "finder_store example_world finder_no_events = []
   \<and> ending (finder_main example_world finder_no_events) = Exit 0
   \<and> report (finder_main example_world finder_no_events) =
       Some \<lparr>processed = 0, times = 1, total_time = Fin 10, mean_per_event = PInf,
             sigma_per_event = NaN, lowest_per_event = PInf\<rparr>"
proof -
  have d: "dump_opens example_world (dump_option finder_no_events)
             \<or> finder_store example_world finder_no_events = []"
    by (simp add: finder_no_events_store)
  have t: "trials_option finder_no_events = 1"
    by (simp add: finder_no_events_def finder_example_def finder_defaults_def)
  have a: "aggregate example_world 1 0 =
          \<lparr>processed = 0, times = 1, total_time = Fin 10, mean_per_event = PInf,
           sigma_per_event = NaN, lowest_per_event = PInf\<rparr>"
    by (simp add: aggregate_def spec_mean_def dsum_def example_elapsed double_of_small
        lower_def round64_numeral round64_one double_of_size_def)
  have r: "report (finder_main example_world finder_no_events) =
       Some \<lparr>processed = 0, times = 1, total_time = Fin 10, mean_per_event = PInf,
             sigma_per_event = NaN, lowest_per_event = PInf\<rparr>"
    using finder_completes[OF finder_no_events_configured d]
    by (simp add: finder_no_events_store t a)
  from finder_printed(3)[OF r] r finder_no_events_store show ?thesis by simp
qed

section \<open>Exit codes\<close>

text \<open>
  C3, as amended. In fastjet-finder a command line on which the number of selection
  flags set among \<^verbatim>\<open>--ptmin\<close>, \<^verbatim>\<open>--dijmax\<close>, \<^verbatim>\<open>--njets\<close> is not exactly one ends the
  process before \<^verbatim>\<open>read_input_events\<close> is called: with exit code 1, unless \<^verbatim>\<open>--help\<close> was
  given exactly once, in which case the help text is printed and the exit code is 0.
  When exactly one flag is set and the help text is not printed, the check passes and
  the events are read.
\<close>

theorem selection_flag_check:
  "(selection_sum opts \<noteq> 1 \<longrightarrow>
      input (finder_main w opts) = None
      \<and> (help_option opts \<noteq> 1 \<longrightarrow> ending (finder_main w opts) = Exit 1)
      \<and> (help_option opts = 1 \<longrightarrow> ending (finder_main w opts) = Exit 0))
   \<and> (selection_sum opts = 1 \<and> help_option opts \<noteq> 1 \<longrightarrow>
        input (finder_main w opts) =
          Some (read_input_events (open_file w (fst (input_file_argument (extra_args opts))))
                  (max_events_option opts)))"
proof (cases "help_option opts = 1")
  case True
  then show ?thesis by (simp add: finder_main_help)
next
  case False
  show ?thesis
  proof (cases "selection_sum opts = 1")
    case True
    with False show ?thesis by (simp add: finder_main_reads)
  next
    case s: False
    with False show ?thesis by (simp add: finder_main_selection)
  qed
qed

lemma example_selection_sums:
  "selection_sum finder_no_selection = 0"
  "selection_sum finder_two_selections = 2"
  "selection_sum finder_help_only = 0"
  "selection_sum finder_example = 1"
  by (simp_all add: selection_sum_def is_set_def finder_no_selection_def
      finder_two_selections_def finder_help_only_def finder_example_def finder_defaults_def)

text \<open>
  The theorem at no selection flag, at \<^verbatim>\<open>--ptmin\<close> together with \<^verbatim>\<open>--njets\<close>, at
  \<^verbatim>\<open>--help\<close> alone, and at \<^verbatim>\<open>--ptmin\<close> alone.
\<close>

theorem selection_flag_check_witness:
  "selection_sum finder_no_selection \<noteq> 1 \<and> help_option finder_no_selection \<noteq> 1
   \<and> input (finder_main example_world finder_no_selection) = None
   \<and> ending (finder_main example_world finder_no_selection) = Exit 1
   \<and> selection_sum finder_two_selections \<noteq> 1 \<and> help_option finder_two_selections \<noteq> 1
   \<and> input (finder_main example_world finder_two_selections) = None
   \<and> ending (finder_main example_world finder_two_selections) = Exit 1
   \<and> selection_sum finder_help_only \<noteq> 1 \<and> help_option finder_help_only = 1
   \<and> input (finder_main example_world finder_help_only) = None
   \<and> ending (finder_main example_world finder_help_only) = Exit 0
   \<and> selection_sum finder_example = 1 \<and> help_option finder_example \<noteq> 1
   \<and> map_option result_events (input (finder_main example_world finder_example)) =
       Some [[stable_jet], [stable_jet]]"
proof -
  have h: "help_option finder_no_selection = 0" "help_option finder_two_selections = 0"
    "help_option finder_help_only = 1" "help_option finder_example = 0"
    by (simp_all add: finder_no_selection_def finder_two_selections_def finder_help_only_def
        finder_example_def finder_defaults_def)
  have r: "result_events (read_input_events
             (open_file example_world (fst (input_file_argument (extra_args finder_example))))
             (max_events_option finder_example)) = [[stable_jet], [stable_jet]]"
    using example_store[of finder_example]
    by (simp add: finder_store_def finder_example_def finder_defaults_def)
  show ?thesis
    using selection_flag_check[of finder_no_selection example_world]
      selection_flag_check[of finder_two_selections example_world]
      selection_flag_check[of finder_help_only example_world]
      selection_flag_check[of finder_example example_world]
    by (simp add: example_selection_sums h r)
qed

text \<open>
  C3 as the specification states it fails: with \<^verbatim>\<open>--help\<close> and no selection flag the
  process ends with exit code 0.
\<close>

theorem selection_flag_check_counterexample:
  "selection_sum finder_help_only \<noteq> 1
   \<and> ending (finder_main example_world finder_help_only) = Exit 0"
proof -
  have "help_option finder_help_only = 1"
    by (simp add: finder_help_only_def)
  then show ?thesis
    by (simp add: example_selection_sums finder_main_help)
qed



lemma finder_exit_zero:
  assumes "ending (finder_main w opts) = Exit 0"
  shows "help_option opts = 1 \<or> report (finder_main w opts) \<noteq> None"
proof (rule ccontr)
  assume n: "\<not> (help_option opts = 1 \<or> report (finder_main w opts) \<noteq> None)"
  then have h: "help_option opts \<noteq> 1" by simp
  show False
  proof (cases "selection_sum opts = 1")
    case False
    with h assms show False by (simp add: finder_main_selection)
  next
    case True
    show False
    proof (cases "select_algorithm (alg_option opts) (power_option opts)")
      case None
      with h True assms show False by (simp add: finder_main_unknown_algorithm)
    next
      case (Some a)
      with h True have "finder_configured opts" by (simp add: finder_configured_def)
      then obtain event_pass where
        f: "finder_main w opts =
           after_trials (snd (input_file_argument (extra_args opts)))
             (read_input_events (open_file w (fst (input_file_argument (extra_args opts))))
                (max_events_option opts))
             (trials_option opts)
             (trial_loop w event_pass (trials_option opts) 0 initial_state)"
        by (rule finder_run[where w = w]) blast
      from assms have "\<not> killed (trial_loop w event_pass (trials_option opts) 0 initial_state)"
        by (simp add: f split: if_splits)
      with n show False by (simp add: f)
    qed
  qed
qed

lemma inclusive_exit_zero:
  "ending (inclusive_main w iopts args) = Exit 0 \<longleftrightarrow> report (inclusive_main w iopts args) \<noteq> None"
proof (cases "getopt_loop w iopts inclusive_defaults")
  case (Inl stop)
  then show ?thesis
    by (cases stop) (simp_all add: inclusive_main_stops)
next
  case (Inr v)
  consider "length args = 0" | "length args > 1" | "length args = 1"
    by linarith
  then show ?thesis
  proof cases
    case 1
    with Inr show ?thesis by (simp add: inclusive_main_stops)
  next
    case 2
    with Inr show ?thesis by (simp add: inclusive_main_stops)
  next
    case 3
    with Inr obtain event_pass where
      "inclusive_main w iopts args =
         after_trials [] (read_input_events (open_file w (args ! 0)) (inc_maxevents v))
           (inc_trials v) (trial_loop w event_pass (inc_trials v) 0 initial_state)"
      by (rule inclusive_run[where w = w]) blast
    then show ?thesis by simp
  qed
qed

text \<open>
  A dump file that cannot be opened kills the process at the first event that is
  written to it: no statistics are printed and there is no exit code.
\<close>

lemma finder_unopened_dump:
  assumes "finder_configured opts"
    and "open_dump w (dump_option opts) = None"
    and "1 \<le> trials_option opts"
    and "size_t_of_int (skip_events_option opts) < length (finder_store w opts)"
  shows "ending (finder_main w opts) = Crash"
    and "report (finder_main w opts) = None"
    and "map clustered (trials_run (finder_main w opts)) =
           [[(size_t_of_int (skip_events_option opts),
              finder_store w opts ! size_t_of_int (skip_events_option opts))]]"
proof -
  from assms(1) obtain strategy algorithm p where
    f: "finder_main w opts =
       after_trials (snd (input_file_argument (extra_args opts)))
         (read_input_events (open_file w (fst (input_file_argument (extra_args opts))))
            (max_events_option opts))
         (trials_option opts)
         (trial_loop w
            (\<lambda>trial. event_loop w opts (open_dump w (dump_option opts)) strategy algorithm p
                      (finder_store w opts) trial (size_t_of_int (skip_events_option opts))
                      no_calls)
            (trials_option opts) 0 initial_state)"
    by (rule finder_main_configured)
  let ?s = "size_t_of_int (skip_events_option opts)"
  let ?pass = "\<lambda>trial. event_loop w opts (open_dump w (dump_option opts)) strategy algorithm p
                      (finder_store w opts) trial ?s no_calls"
  have i: "is_set (dump_option opts)"
    using assms(2) by (cases "dump_option opts") (simp_all add: open_dump_def is_set_def)
  have p: "?pass 0 = \<lparr>clustered = [(?s, finder_store w opts ! ?s)], dumped = [], died = True\<rparr>"
    using assms(4) i assms(2) by (simp add: event_loop_dies no_calls_def)
  have t: "int 0 < trials_option opts" using assms(3) by simp
  have d: "died (?pass 0)" by (simp add: p)
  have l: "trial_loop w ?pass (trials_option opts) 0 initial_state =
             initial_state\<lparr>trial_logs := trial_logs initial_state @ [?pass 0], killed := True\<rparr>"
    by (rule trial_loop_dies[where event_pass = ?pass, OF t d])
  show "ending (finder_main w opts) = Crash" by (simp add: f l)
  show "report (finder_main w opts) = None" by (simp add: f l)
  show "map clustered (trials_run (finder_main w opts)) = [[(?s, finder_store w opts ! ?s)]]"
    unfolding f after_trials_fields l by (simp add: p)
qed

lemma inclusive_unopened_dump:
  assumes "getopt_loop w iopts inclusive_defaults = Inr v"
    and "length args = 1"
    and "inc_dump v"
    and "open_dump w (Some (inc_dump_file v)) = None"
    and "1 \<le> inc_trials v"
    and "inclusive_store w v args \<noteq> []"
  shows "ending (inclusive_main w iopts args) = Crash"
    and "report (inclusive_main w iopts args) = None"
proof -
  let ?pass = "\<lambda>trial. inclusive_event_loop w v None (set_strategy (inc_mystrategy v))
                 (inclusive_algorithm (inc_power v)) (inclusive_store w v args) trial 0 no_calls"
  have f: "inclusive_main w iopts args =
       after_trials [] (read_input_events (open_file w (args ! 0)) (inc_maxevents v))
         (inc_trials v) (trial_loop w ?pass (inc_trials v) 0 initial_state)"
    using assms(1,2,3,4) by (simp add: inclusive_main_def Let_def inclusive_store_def)
  have n: "0 < length (inclusive_store w v args)" using assms(6) by simp
  have p: "?pass 0 = \<lparr>clustered = [(0, inclusive_store w v args ! 0)], dumped = [],
                      died = True\<rparr>"
    using n assms(3) by (simp add: inclusive_event_loop_dies no_calls_def)
  have t: "int 0 < inc_trials v" using assms(5) by simp
  have d: "died (?pass 0)" by (simp add: p)
  have l: "trial_loop w ?pass (inc_trials v) 0 initial_state =
             initial_state\<lparr>trial_logs := trial_logs initial_state @ [?pass 0], killed := True\<rparr>"
    by (rule trial_loop_dies[where event_pass = ?pass, OF t d])
  show "ending (inclusive_main w iopts args) = Crash" by (simp add: f l)
  show "report (inclusive_main w iopts args) = None" by (simp add: f l)
qed

lemma example_unopened_dump:
  "ending (finder_main example_world finder_dump_unopened) = Crash"
  "report (finder_main example_world finder_dump_unopened) = None"
  "map clustered (trials_run (finder_main example_world finder_dump_unopened)) =
     [[(0, [stable_jet])]]"
proof -
  have c: "finder_configured finder_dump_unopened"
    by (rule ptmin_only_configured[of _ "Fin 0"])
       (simp_all add: finder_dump_unopened_def finder_example_def finder_defaults_def)
  have o: "open_dump example_world (dump_option finder_dump_unopened) = None"
    by (simp add: open_dump_def finder_dump_unopened_def example_world_def)
  have t: "1 \<le> trials_option finder_dump_unopened"
    by (simp add: finder_dump_unopened_def finder_example_def finder_defaults_def)
  have s: "finder_store example_world finder_dump_unopened = [[stable_jet], [stable_jet]]"
    by (rule example_store)
       (simp_all add: finder_dump_unopened_def finder_example_def finder_defaults_def)
  have k: "size_t_of_int (skip_events_option finder_dump_unopened) = 0"
    by (simp add: size_t_of_int_def finder_dump_unopened_def finder_example_def
        finder_defaults_def)
  have b: "size_t_of_int (skip_events_option finder_dump_unopened)
             < length (finder_store example_world finder_dump_unopened)"
    by (simp add: k s)
  note r = finder_unopened_dump[OF c o t b]
  show "ending (finder_main example_world finder_dump_unopened) = Crash" by (rule r(1))
  show "report (finder_main example_world finder_dump_unopened) = None" by (rule r(2))
  show "map clustered (trials_run (finder_main example_world finder_dump_unopened)) =
     [[(0, [stable_jet])]]"
    using r(3) by (simp add: k s)
qed

text \<open>
  C4, as amended. fastjet-finder ends with exit code 0 when the help text is displayed
  (\<^verbatim>\<open>--help\<close> given exactly once) and when the run completes with its statistics printed,
  which it does when exactly one selection flag is set, the algorithm name is known and
  the dump file, if one is named, can be opened; it ends with exit code 0 in no other
  case. It ends with exit code 1 when, the help text not being displayed, the selection
  flags set are not exactly one, or exactly one is set and the algorithm name is none of
  the six known names. fastjet-inclusive ends with exit code 255 when the help text is
  displayed, with exit code 1 on an option that the option loop does not know, on a
  missing input file argument and on surplus arguments, and with exit code 0 exactly
  when the run completes with its statistics printed. (What fastjet-finder does without
  exactly one input file argument is not part of the statement.)
\<close>

theorem exit_code_convention:
  "(help_option opts = 1 \<longrightarrow> ending (finder_main w opts) = Exit 0)
   \<and> (help_option opts \<noteq> 1 \<and> selection_sum opts \<noteq> 1 \<longrightarrow>
        ending (finder_main w opts) = Exit 1)
   \<and> (help_option opts \<noteq> 1 \<and> selection_sum opts = 1
        \<and> alg_option opts \<noteq> [] \<and> alg_option opts \<notin> set algorithm_names \<longrightarrow>
        ending (finder_main w opts) = Exit 1)
   \<and> (finder_configured opts \<and> length (extra_args opts) = 1
        \<and> dump_opens w (dump_option opts) \<longrightarrow>
        ending (finder_main w opts) = Exit 0 \<and> report (finder_main w opts) \<noteq> None)
   \<and> (ending (finder_main w opts) = Exit 0 \<longrightarrow>
        help_option opts = 1 \<or> report (finder_main w opts) \<noteq> None)
   \<and> (getopt_loop w' iopts inclusive_defaults = Inl Help \<longrightarrow>
        ending (inclusive_main w' iopts args) = Exit 255)
   \<and> (getopt_loop w' iopts inclusive_defaults = Inl Usage \<longrightarrow>
        ending (inclusive_main w' iopts args) = Exit 1)
   \<and> ((\<exists>v. getopt_loop w' iopts inclusive_defaults = Inr v) \<and> length args \<noteq> 1 \<longrightarrow>
        ending (inclusive_main w' iopts args) = Exit 1)
   \<and> (ending (inclusive_main w' iopts args) = Exit 0 \<longleftrightarrow>
        report (inclusive_main w' iopts args) \<noteq> None)"
proof -
  have a: "help_option opts = 1 \<longrightarrow> ending (finder_main w opts) = Exit 0"
    by (simp add: finder_main_help)
  have b: "help_option opts \<noteq> 1 \<and> selection_sum opts \<noteq> 1 \<longrightarrow>
        ending (finder_main w opts) = Exit 1"
    by (simp add: finder_main_selection)
  have c: "help_option opts \<noteq> 1 \<and> selection_sum opts = 1
        \<and> alg_option opts \<noteq> [] \<and> alg_option opts \<notin> set algorithm_names \<longrightarrow>
        ending (finder_main w opts) = Exit 1"
    using select_algorithm_unknown[of "alg_option opts" "power_option opts"]
    by (simp add: finder_main_unknown_algorithm)
  have d: "finder_configured opts \<and> length (extra_args opts) = 1
        \<and> dump_opens w (dump_option opts) \<longrightarrow>
        ending (finder_main w opts) = Exit 0 \<and> report (finder_main w opts) \<noteq> None"
  proof
    assume p: "finder_configured opts \<and> length (extra_args opts) = 1
        \<and> dump_opens w (dump_option opts)"
    then have q: "finder_configured opts"
      and o: "dump_opens w (dump_option opts) \<or> finder_store w opts = []" by simp_all
    note r = finder_completes[OF q o]
    from finder_printed(3)[OF r] r
    show "ending (finder_main w opts) = Exit 0 \<and> report (finder_main w opts) \<noteq> None"
      by simp
  qed
  have e: "ending (finder_main w opts) = Exit 0 \<longrightarrow>
        help_option opts = 1 \<or> report (finder_main w opts) \<noteq> None"
    using finder_exit_zero by blast
  have f: "getopt_loop w' iopts inclusive_defaults = Inl Help \<longrightarrow>
        ending (inclusive_main w' iopts args) = Exit 255"
    by (simp add: inclusive_main_stops)
  have g: "getopt_loop w' iopts inclusive_defaults = Inl Usage \<longrightarrow>
        ending (inclusive_main w' iopts args) = Exit 1"
    by (simp add: inclusive_main_stops)
  have h: "(\<exists>v. getopt_loop w' iopts inclusive_defaults = Inr v) \<and> length args \<noteq> 1 \<longrightarrow>
        ending (inclusive_main w' iopts args) = Exit 1"
  proof
    assume p: "(\<exists>v. getopt_loop w' iopts inclusive_defaults = Inr v) \<and> length args \<noteq> 1"
    then obtain v where v: "getopt_loop w' iopts inclusive_defaults = Inr v" by blast
    from p have "length args = 0 \<or> length args > 1" by linarith
    with v show "ending (inclusive_main w' iopts args) = Exit 1"
      by (auto simp: inclusive_main_stops)
  qed
  note i = inclusive_exit_zero[of w' iopts args]
  from a b c d e f g h i show ?thesis by blast
qed


lemma example_help_options:
  "help_option finder_help_example = 1"
  "help_option finder_unknown_algorithm = 0"
  "selection_sum finder_unknown_algorithm = 1"
  "alg_option finder_unknown_algorithm = ''SISCone''"
  "extra_args finder_example = [''events.hepmc3'']"
  by (simp_all add: finder_help_example_def finder_unknown_algorithm_def finder_example_def
      finder_defaults_def selection_sum_def is_set_def)

lemma finder_example_runs: "finder_configured finder_example"
  by (rule ptmin_only_configured[of _ "Fin 0"])
     (simp_all add: finder_example_def finder_defaults_def)

text \<open>
  The theorem at \<^verbatim>\<open>--help\<close>, at no selection flag, at \<^verbatim>\<open>--algorithm SISCone\<close>, at a
  complete run of fastjet-finder without a dump, and for fastjet-inclusive at \<^verbatim>\<open>-h\<close>, at
  an unknown option, at no input file argument and at a complete run.
\<close>

theorem exit_code_convention_witness:
  "help_option finder_help_example = 1
   \<and> ending (finder_main example_world finder_help_example) = Exit 0
   \<and> help_option finder_no_selection \<noteq> 1 \<and> selection_sum finder_no_selection \<noteq> 1
   \<and> ending (finder_main example_world finder_no_selection) = Exit 1
   \<and> help_option finder_unknown_algorithm \<noteq> 1 \<and> selection_sum finder_unknown_algorithm = 1
   \<and> alg_option finder_unknown_algorithm \<noteq> []
   \<and> alg_option finder_unknown_algorithm \<notin> set algorithm_names
   \<and> ending (finder_main example_world finder_unknown_algorithm) = Exit 1
   \<and> finder_configured finder_example \<and> length (extra_args finder_example) = 1
   \<and> dump_opens example_world (dump_option finder_example)
   \<and> ending (finder_main example_world finder_example) = Exit 0
   \<and> report (finder_main example_world finder_example) \<noteq> None
   \<and> getopt_loop example_world [(CHR ''h'', [])] inclusive_defaults = Inl Help
   \<and> ending (inclusive_main example_world [(CHR ''h'', [])] [''events.hepmc3'']) = Exit 255
   \<and> getopt_loop example_world [(CHR ''?'', [])] inclusive_defaults = Inl Usage
   \<and> ending (inclusive_main example_world [(CHR ''?'', [])] [''events.hepmc3'']) = Exit 1
   \<and> getopt_loop example_world [] inclusive_defaults = Inr inclusive_defaults
   \<and> ending (inclusive_main example_world [] []) = Exit 1
   \<and> ending (inclusive_main example_world [] [''events.hepmc3'']) = Exit 0
   \<and> report (inclusive_main example_world [] [''events.hepmc3'']) \<noteq> None"
proof -
  have h: "help_option finder_no_selection = 0"
    by (simp add: finder_no_selection_def finder_defaults_def)
  have g: "getopt_loop example_world [(CHR ''h'', [])] inclusive_defaults = Inl Help"
    "getopt_loop example_world [(CHR ''?'', [])] inclusive_defaults = Inl Usage"
    "getopt_loop example_world [] inclusive_defaults = Inr inclusive_defaults"
    by simp_all
  have o: "dump_opens example_world (dump_option finder_example)"
    by (simp add: finder_example_def finder_defaults_def)
  have r: "report (inclusive_main example_world [] [''events.hepmc3'']) \<noteq> None"
    using inclusive_completes[OF g(3), of "[''events.hepmc3'']"]
    by (simp add: inclusive_defaults_def)
  show ?thesis
    using exit_code_convention[of finder_help_example example_world example_world
        "[(CHR ''h'', [])]" "[''events.hepmc3'']"]
      exit_code_convention[of finder_no_selection example_world example_world
        "[(CHR ''?'', [])]" "[''events.hepmc3'']"]
      exit_code_convention[of finder_unknown_algorithm example_world example_world "[]" "[]"]
      exit_code_convention[of finder_example example_world example_world
        "[]" "[''events.hepmc3'']"]
      finder_example_runs r o
    by (simp add: example_help_options example_selection_sums h g algorithm_names_def)
qed

text \<open>
  C4 as the specification states it fails: fastjet-finder with \<^verbatim>\<open>--help\<close> displays the
  help text and ends with exit code 0.
\<close>

theorem help_exit_code_counterexample:
  "diagnostics (finder_main example_world finder_help_example) = [HelpText]
   \<and> ending (finder_main example_world finder_help_example) = Exit 0"
  by (simp add: finder_main_help example_help_options)

section \<open>Algorithm choice and dumps\<close>

lemma deq_Fin: "deq p (Fin c) \<longleftrightarrow> p = Fin c"
  by (cases p) auto

text \<open>
  C8, as amended. Without an algorithm name, fastjet-finder takes anti-kt for the power
  \<open>-1\<close>, Cambridge/Aachen for \<open>0\<close>, kt for \<open>1\<close> and generalised kt for every other
  value of the power. fastjet-inclusive, which has no algorithm option and an integer
  power, takes Cambridge/Aachen for \<open>0\<close>, kt for \<open>1\<close> and anti-kt for every other
  value, \<open>-1\<close> among them.
\<close>

theorem algorithm_from_power:
  "select_algorithm [] (Fin (- 1)) = Some (antikt_algorithm, Fin (- 1))
   \<and> select_algorithm [] (Fin 0) = Some (cambridge_aachen_algorithm, Fin 0)
   \<and> select_algorithm [] (Fin 1) = Some (kt_algorithm, Fin 1)
   \<and> (p \<noteq> Fin (- 1) \<and> p \<noteq> Fin 0 \<and> p \<noteq> Fin 1 \<longrightarrow>
        select_algorithm [] p = Some (genkt_algorithm, p))
   \<and> inclusive_algorithm (- 1) = antikt_algorithm
   \<and> inclusive_algorithm 0 = cambridge_aachen_algorithm
   \<and> inclusive_algorithm 1 = kt_algorithm
   \<and> (q \<noteq> 0 \<and> q \<noteq> 1 \<longrightarrow> inclusive_algorithm q = antikt_algorithm)"
  by (simp add: select_algorithm_def inclusive_algorithm_def deq_Fin)

text \<open>The theorem at the powers \<open>2\<close> (fastjet-finder) and \<open>3\<close> (fastjet-inclusive).\<close>

theorem algorithm_from_power_witness:
  "Fin 2 \<noteq> Fin (- 1) \<and> Fin 2 \<noteq> Fin 0 \<and> Fin 2 \<noteq> Fin 1
   \<and> select_algorithm [] (Fin 2) = Some (genkt_algorithm, Fin 2)
   \<and> (3 :: int) \<noteq> 0 \<and> (3 :: int) \<noteq> 1
   \<and> inclusive_algorithm 3 = antikt_algorithm"
  using algorithm_from_power[of "Fin 2" 3] by simp

text \<open>
  C8 as the specification states it fails for fastjet-inclusive: the power \<open>2\<close> is
  none of \<open>-1\<close>, \<open>0\<close>, \<open>1\<close>, and the algorithm chosen is anti-kt, not generalised kt.
\<close>

theorem inclusive_power_counterexample:
  "inclusive_algorithm 2 = antikt_algorithm \<and> inclusive_algorithm 2 \<noteq> genkt_algorithm"
  by (simp add: inclusive_algorithm_def)


text \<open>
  The passes that a trial loop logs are those of consecutive trial indices.
\<close>

lemma trial_loop_logs:
  "\<exists>k. trial_logs (trial_loop w event_pass trials trial st) =
         trial_logs st @ map event_pass [trial..<k]"
proof (induction w event_pass trials trial st rule: trial_loop.induct)
  case (1 w event_pass trials trial st)
  show ?case
  proof (cases "int trial < trials")
    case False
    then have "trial_logs (trial_loop w event_pass trials trial st) =
                 trial_logs st @ map event_pass [trial..<trial]"
      by (simp add: trial_loop_done)
    then show ?thesis by blast
  next
    case True
    show ?thesis
    proof (cases "died (event_pass trial)")
      case d: True
      have "trial_logs (trial_loop w event_pass trials trial st) =
              trial_logs st @ map event_pass [trial..<Suc trial]"
        by (simp add: trial_loop_dies[where event_pass = event_pass, OF True d])
      then show ?thesis by blast
    next
      case a: False
      from "1.IH"[OF True refl a] obtain k where
        k: "trial_logs (trial_loop w event_pass trials (trial + 1)
                          (trial_body w (event_pass trial) trial st)) =
              trial_logs (trial_body w (event_pass trial) trial st)
                @ map event_pass [trial + 1..<k]"
        by blast
      have s: "trial_loop w event_pass trials trial st =
                 trial_loop w event_pass trials (trial + 1)
                   (trial_body w (event_pass trial) trial st)"
        by (rule trial_loop_step[where event_pass = event_pass, OF True a])
      have "trial_logs (trial_loop w event_pass trials trial st) =
              trial_logs st @ map event_pass [trial..<max k (Suc trial)]"
      proof (cases "trial < k")
        case True
        then have "[trial..<max k (Suc trial)] = trial # [trial + 1..<k]"
          by (simp add: upt_conv_Cons max_def)
        with k show ?thesis by (simp add: s)
      next
        case False
        then have "[trial + 1..<k] = []" "[trial..<max k (Suc trial)] = [trial]"
          by (simp_all add: max_def)
        with k show ?thesis by (simp add: s)
      qed
      then show ?thesis by blast
    qed
  qed
qed

text \<open>
  fastjet-finder writes no dump line in a trial of an index above 0
  (\<^verbatim>\<open>dump_option->is_set() && trial==0\<close>, line 205).
\<close>

lemma finder_dumps_in_first_trial_only:
  assumes "finder_configured opts" and "0 < trial"
    and "trial < length (trials_run (finder_main w opts))"
  shows "dumped (trials_run (finder_main w opts) ! trial) = []"
proof -
  from assms(1) obtain event_pass where
    f: "finder_main w opts =
       after_trials (snd (input_file_argument (extra_args opts)))
         (read_input_events (open_file w (fst (input_file_argument (extra_args opts))))
            (max_events_option opts))
         (trials_option opts)
         (trial_loop w event_pass (trials_option opts) 0 initial_state)"
    and d: "\<And>trial. trial \<noteq> 0 \<Longrightarrow> dumped (event_pass trial) = [] \<and> \<not> died (event_pass trial)"
    by (rule finder_run[where w = w]) blast
  obtain k where
    "trial_logs (trial_loop w event_pass (trials_option opts) 0 initial_state) =
       trial_logs initial_state @ map event_pass [0..<k]"
    using trial_loop_logs[of w event_pass "trials_option opts" 0 initial_state] by blast
  then have t: "trials_run (finder_main w opts) = map event_pass [0..<k]"
    by (simp add: f)
  from assms(3) have "trial < k" by (simp add: t)
  with assms(2) show ?thesis
    by (simp add: t d)
qed

lemma example_getopt_dump:
  "getopt_loop example_world [(CHR ''n'', ''2''), (CHR ''d'', ''-'')] inclusive_defaults =
     Inr (inclusive_defaults\<lparr>inc_trials := 2, inc_dump_file := ''-'', inc_dump := True\<rparr>)"
  by (simp add: example_world_def)

lemma example_inclusive_pass:
  "inc_dump v \<Longrightarrow>
   inclusive_event_loop example_world v (Some stdout) strategy algorithm
     [[stable_jet], [stable_jet]] trial 0 \<lparr>clustered = [], dumped = [], died = False\<rparr> =
   \<lparr>clustered = [(0, [stable_jet]), (1, [stable_jet])],
    dumped = [EventHeader 1, JetLine 0 (Fin 0) (Fin 0) (Fin 5),
              EventHeader 2, JetLine 0 (Fin 0) (Fin 0) (Fin 5)],
    died = False\<rparr>"
  by (simp add: inclusive_event_loop_writes inclusive_event_loop_done jet_lines_def
      run_fastjet_clustering_inclusive_def example_world_def)

text \<open>
  C5 fails in fastjet-inclusive, whose dump is guarded by \<^verbatim>\<open>if (dump)\<close> alone
  (line 158) where fastjet-finder has \<^verbatim>\<open>dump_option->is_set() && trial==0\<close> (line 205):
  with \<^verbatim>\<open>-n 2 -d -\<close> on the two-event file, the trial of index 1 writes the same four
  dump lines as the trial of index 0.
\<close>

theorem inclusive_dumps_in_every_trial:
  "map dumped
     (trials_run (inclusive_main example_world [(CHR ''n'', ''2''), (CHR ''d'', ''-'')]
                    [''events.hepmc3''])) =
     [[EventHeader 1, JetLine 0 (Fin 0) (Fin 0) (Fin 5),
       EventHeader 2, JetLine 0 (Fin 0) (Fin 0) (Fin 5)],
      [EventHeader 1, JetLine 0 (Fin 0) (Fin 0) (Fin 5),
       EventHeader 2, JetLine 0 (Fin 0) (Fin 0) (Fin 5)]]"
proof -
  let ?v = "inclusive_defaults\<lparr>inc_trials := 2, inc_dump_file := ''-'', inc_dump := True\<rparr>"
  let ?pass = "\<lambda>trial. inclusive_event_loop example_world ?v (Some stdout)
                 (set_strategy (inc_mystrategy ?v)) (inclusive_algorithm (inc_power ?v))
                 [[stable_jet], [stable_jet]] trial 0
                 \<lparr>clustered = [], dumped = [], died = False\<rparr>"
  let ?lines = "[EventHeader 1, JetLine 0 (Fin 0) (Fin 0) (Fin 5),
                 EventHeader 2, JetLine 0 (Fin 0) (Fin 0) (Fin 5)]"
  have s: "inclusive_store example_world ?v [''events.hepmc3''] = [[stable_jet], [stable_jet]]"
    by (rule example_inclusive_store) (simp add: inclusive_defaults_def)
  have p: "?pass trial =
             \<lparr>clustered = [(0, [stable_jet]), (1, [stable_jet])], dumped = ?lines,
              died = False\<rparr>" for trial
    by (rule example_inclusive_pass) simp
  have f: "inclusive_main example_world [(CHR ''n'', ''2''), (CHR ''d'', ''-'')]
             [''events.hepmc3''] =
       after_trials []
         (read_input_events (open_file example_world ([''events.hepmc3''] ! 0))
            (inc_maxevents ?v))
         (inc_trials ?v) (trial_loop example_world ?pass (inc_trials ?v) 0 initial_state)"
    unfolding inclusive_main_def example_getopt_dump using s
    by (simp add: Let_def inclusive_store_def open_dump_def no_calls_def)
  have a: "\<not> died (?pass t)" for t unfolding p by simp
  have k: "\<not> killed (trial_loop example_world ?pass (inc_trials ?v) 0 initial_state)"
    using a by (simp add: trial_loop_alive)
  have n: "[0..<2] = [0, Suc 0]"
    by (simp add: upt_rec)
  have "trial_logs (trial_loop example_world ?pass (inc_trials ?v) 0 initial_state) =
          map ?pass [0..<2]"
    using trial_loop_completed(1)[OF k] by simp
  then show ?thesis
    unfolding f after_trials_fields p by (simp add: n)
qed

section \<open>Skipped events\<close>

lemma size_t_of_int_nonneg:
  "0 \<le> i \<Longrightarrow> i < 2 ^ 31 \<Longrightarrow> size_t_of_int i = nat i"
  by (simp add: size_t_of_int_def)

lemma size_t_of_int_minus_one: "size_t_of_int (- 1) = 2 ^ 64 - 1"
  by (simp add: size_t_of_int_def)

text \<open>
  A count of microseconds from 0 up to the largest 64-bit value converts to a finite
  double that is not above \<open>2 ^ 63\<close>, and so is below the sentinel \<open>1.0e20\<close>.
\<close>

lemma double_of_int_bounded:
  assumes "0 \<le> c" and "c < 2 ^ 63"
  shows "\<exists>y. double_of_int c = Fin y \<and> 0 \<le> y \<and> y \<le> 2 ^ 63"
proof (cases "c = 0")
  case True
  then show ?thesis by (simp add: double_of_int_def)
next
  case False
  with assms(1) have p: "0 < real_of_int c" by simp
  have "real_of_int c < real_of_int (2 ^ 63)"
    using assms(2) by (simp only: of_int_less_iff)
  then have b: "real_of_int c < 2 powi (62 + 1)" by simp
  from round64_at_most[OF p b] obtain y where
    "round64 (real_of_int c) = Fin y" "0 \<le> y" "y \<le> 2 powi (62 + 1)"
    by auto
  then show ?thesis by (simp add: double_of_int_def)
qed

lemma foldl_lower_Fin:
  assumes "\<forall>x \<in> set xs. \<exists>y. x = Fin y"
  shows "\<exists>m. foldl lower (Fin a) xs = Fin m \<and> m \<le> a
             \<and> (\<forall>y. Fin y \<in> set xs \<longrightarrow> m \<le> y) \<and> (m = a \<or> Fin m \<in> set xs)"
  using assms
proof (induction xs arbitrary: a)
  case Nil
  then show ?case by simp
next
  case (Cons x xs)
  then obtain y where x: "x = Fin y" by auto
  have l: "lower (Fin a) x = Fin (min a y)"
    by (simp add: lower_def x min_def)
  from Cons.prems have "\<forall>x \<in> set xs. \<exists>y. x = Fin y" by simp
  from Cons.IH[OF this, of "min a y"] obtain m where
    m: "foldl lower (Fin (min a y)) xs = Fin m" "m \<le> min a y"
      "\<forall>z. Fin z \<in> set xs \<longrightarrow> m \<le> z" "m = min a y \<or> Fin m \<in> set xs"
    by blast
  have 1: "foldl lower (Fin a) (x # xs) = Fin m" by (simp add: l m(1))
  have 2: "m \<le> a" using m(2) by simp
  have 3: "\<forall>z. Fin z \<in> set (x # xs) \<longrightarrow> m \<le> z" using m(2,3) by (auto simp: x)
  have 4: "m = a \<or> Fin m \<in> set (x # xs)" using m(4) by (auto simp: x min_def)
  from 1 2 3 4 show ?case by blast
qed

lemma elapsed_lowest:
  assumes "1 \<le> trials"
    and "\<forall>trial < nat trials. 0 \<le> clock_us w trial \<and> clock_us w trial < 2 ^ 63"
  shows "least_of (elapsed w trials) (foldl lower (Fin (10 ^ 20)) (elapsed w trials))"
proof -
  have b: "\<exists>y. x = Fin y \<and> y \<le> 2 ^ 63" if "x \<in> set (elapsed w trials)" for x
  proof -
    from that obtain trial where t: "trial < nat trials" and x: "x = double_of_int (clock_us w trial)"
      by (auto simp: elapsed_def)
    from assms(2) t have "0 \<le> clock_us w trial" "clock_us w trial < 2 ^ 63" by simp_all
    from double_of_int_bounded[OF this] x show ?thesis by auto
  qed
  then have f: "\<forall>x \<in> set (elapsed w trials). \<exists>y. x = Fin y" by blast
  from foldl_lower_Fin[OF f, of "10 ^ 20"] obtain m where
    m: "foldl lower (Fin (10 ^ 20)) (elapsed w trials) = Fin m"
      "\<forall>y. Fin y \<in> set (elapsed w trials) \<longrightarrow> m \<le> y"
      "m = 10 ^ 20 \<or> Fin m \<in> set (elapsed w trials)"
    by blast
  have ne: "double_of_int (clock_us w 0) \<in> set (elapsed w trials)"
    using assms(1) by (auto simp: elapsed_def)
  have i: "Fin m \<in> set (elapsed w trials)"
  proof (cases "Fin m \<in> set (elapsed w trials)")
    case True
    then show ?thesis .
  next
    case False
    with m(3) have a: "m = 10 ^ 20" by simp
    from b[OF ne] obtain y where y: "double_of_int (clock_us w 0) = Fin y" "y \<le> 2 ^ 63"
      by blast
    from m(2) ne y(1) have "m \<le> y" by simp
    with y(2) a have "(10::real) ^ 20 \<le> 2 ^ 63" by linarith
    then show ?thesis by simp
  qed
  have "\<not> dless x (Fin m)" if "x \<in> set (elapsed w trials)" for x
  proof -
    from f that obtain y where y: "x = Fin y" by blast
    with that m(2) have "m \<le> y" by simp
    then show ?thesis by (simp add: y)
  qed
  with i show ?thesis unfolding least_of_def m(1) by blast
qed

text \<open>
  C6, as amended. In fastjet-finder, for a run that reaches the trial loop with
  \<^verbatim>\<open>--skipevents\<close> \<open>s\<close>, \<open>0 \<le> s\<close>, with a dump file that can be opened if one is named,
  and with an event store of \<open>n\<close> events, there is one pass per trial, and every pass
  hands to the clustering the events of the store at the indices \<open>s\<close> to \<open>n - 1\<close>, in
  this order, and no other. The statistics are printed, and they are divided by the
  full event count \<open>n\<close>: the mean printed per event is the total printed divided by
  \<open>n\<close>, the deviation printed is the deviation of the raw totals of the trials divided
  by \<open>n\<close>, and with at least one trial, each of between 0 and \<open>2 ^ 63\<close> microseconds,
  the lowest time printed is a least one of the raw totals divided by \<open>n\<close>. The
  arithmetic is that of the doubles.
\<close>

theorem skip_events_and_normalisation:
  assumes "finder_configured opts"
    and "dump_opens w (dump_option opts)"
    and "0 \<le> skip_events_option opts"
    and "skip_events_option opts < 2 ^ 31"
  shows "length (trials_run (finder_main w opts)) = nat (trials_option opts)
       \<and> (\<forall>pass \<in> set (trials_run (finder_main w opts)).
            clustered pass =
              map (\<lambda>i. (i, finder_store w opts ! i))
                [nat (skip_events_option opts)..<length (finder_store w opts)])
       \<and> (\<exists>r. report (finder_main w opts) = Some r
              \<and> processed r = length (finder_store w opts)
              \<and> total_time r =
                  ddiv (dsum (elapsed w (trials_option opts))) (double_of_int (trials_option opts))
              \<and> mean_per_event r =
                  ddiv (total_time r) (double_of_size (length (finder_store w opts)))
              \<and> sigma_per_event r =
                  ddiv (if 1 < trials_option opts
                        then dsqrt (spec_variance (elapsed w (trials_option opts))
                                      (trials_option opts))
                        else Fin 0)
                    (double_of_size (length (finder_store w opts)))
              \<and> (1 \<le> trials_option opts
                   \<and> (\<forall>trial < nat (trials_option opts).
                          0 \<le> clock_us w trial \<and> clock_us w trial < 2 ^ 63) \<longrightarrow>
                  (\<exists>m. least_of (elapsed w (trials_option opts)) m
                       \<and> lowest_per_event r =
                           ddiv m (double_of_size (length (finder_store w opts))))))"
proof -
  let ?n = "length (finder_store w opts)"
  let ?t = "trials_option opts"
  let ?r = "aggregate w ?t ?n"
  have o: "dump_opens w (dump_option opts) \<or> finder_store w opts = []"
    using assms(2) by simp
  have r: "report (finder_main w opts) = Some ?r"
    by (rule finder_completes[OF assms(1) o])
  have a: "length (trials_run (finder_main w opts)) = nat ?t"
    by (rule finder_printed(4)[OF r])
  have b: "\<forall>pass \<in> set (trials_run (finder_main w opts)).
            clustered pass =
              map (\<lambda>i. (i, finder_store w opts ! i)) [nat (skip_events_option opts)..<?n]"
    using finder_printed(5)[OF r] by (simp add: size_t_of_int_nonneg[OF assms(3,4)])
  have c: "processed ?r = ?n"
    "total_time ?r = ddiv (dsum (elapsed w ?t)) (double_of_int ?t)"
    "mean_per_event ?r = ddiv (total_time ?r) (double_of_size ?n)"
    "sigma_per_event ?r =
       ddiv (if 1 < ?t then dsqrt (spec_variance (elapsed w ?t) ?t) else Fin 0)
         (double_of_size ?n)"
    by (simp_all add: aggregate_def spec_mean_def)
  have d: "1 \<le> ?t \<and> (\<forall>trial < nat ?t. 0 \<le> clock_us w trial \<and> clock_us w trial < 2 ^ 63) \<longrightarrow>
             (\<exists>m. least_of (elapsed w ?t) m
                  \<and> lowest_per_event ?r = ddiv m (double_of_size ?n))"
  proof
    assume h: "1 \<le> ?t \<and> (\<forall>trial < nat ?t. 0 \<le> clock_us w trial \<and> clock_us w trial < 2 ^ 63)"
    then have t: "1 \<le> ?t"
      and k: "\<forall>trial < nat ?t. 0 \<le> clock_us w trial \<and> clock_us w trial < 2 ^ 63"
      by simp_all
    have "lowest_per_event ?r =
            ddiv (foldl lower (Fin (10 ^ 20)) (elapsed w ?t)) (double_of_size ?n)"
      by (simp add: aggregate_def)
    with elapsed_lowest[OF t k]
    show "\<exists>m. least_of (elapsed w ?t) m \<and> lowest_per_event ?r = ddiv m (double_of_size ?n)"
      by blast
  qed
  from a b r c d show ?thesis by blast
qed

lemma finder_skip_one_facts:
  "finder_configured finder_skip_one"
  "skip_events_option finder_skip_one = 1"
  "trials_option finder_skip_one = 2"
  "finder_store example_world finder_skip_one = [[stable_jet], [stable_jet]]"
  "dump_opens example_world (dump_option finder_skip_one)"
proof -
  show "finder_configured finder_skip_one"
    by (rule ptmin_only_configured[of _ "Fin 0"])
       (simp_all add: finder_skip_one_def finder_example_def finder_defaults_def)
  show "skip_events_option finder_skip_one = 1" "trials_option finder_skip_one = 2"
    by (simp_all add: finder_skip_one_def)
  show "finder_store example_world finder_skip_one = [[stable_jet], [stable_jet]]"
    by (rule example_store)
       (simp_all add: finder_skip_one_def finder_example_def finder_defaults_def)
  show "dump_opens example_world (dump_option finder_skip_one)"
    by (simp add: finder_skip_one_def finder_example_def finder_defaults_def)
qed

lemma example_clock_bound:
  "\<forall>trial < nat 2. 0 \<le> clock_us example_world trial \<and> clock_us example_world trial < 2 ^ 63"
proof (intro allI impI)
  fix trial :: nat
  assume "trial < nat 2"
  then have "int trial < 2" by simp
  then have "0 \<le> 10 + 2 * int trial \<and> 10 + 2 * int trial < 2 ^ 63" by simp
  then show "0 \<le> clock_us example_world trial \<and> clock_us example_world trial < 2 ^ 63"
    by (simp add: example_world_def)
qed

lemma example_least: "least_of [Fin 10, Fin 12] m \<longleftrightarrow> m = Fin 10"
  by (auto simp: least_of_def)

text \<open>
  The theorem at \<^verbatim>\<open>--skipevents 1 --trials 2\<close> over the two-event file: each of the two
  passes hands to the clustering the event of index 1 alone, and the mean of \<open>11\<close>
  microseconds per trial is printed as \<open>11 / 2\<close> per event, the two events of the store
  counted.
\<close>

theorem skip_events_and_normalisation_witness:
  "finder_configured finder_skip_one
   \<and> dump_opens example_world (dump_option finder_skip_one)
   \<and> 0 \<le> skip_events_option finder_skip_one
   \<and> skip_events_option finder_skip_one < 2 ^ 31
   \<and> 1 \<le> trials_option finder_skip_one
   \<and> nat (trials_option finder_skip_one) = 2
   \<and> 0 \<le> clock_us example_world 0 \<and> clock_us example_world 0 < 2 ^ 63
   \<and> 0 \<le> clock_us example_world 1 \<and> clock_us example_world 1 < 2 ^ 63
   \<and> length (finder_store example_world finder_skip_one) = 2
   \<and> length (trials_run (finder_main example_world finder_skip_one)) = 2
   \<and> map clustered (trials_run (finder_main example_world finder_skip_one)) =
       [[(1, [stable_jet])], [(1, [stable_jet])]]
   \<and> map_option processed (report (finder_main example_world finder_skip_one)) = Some 2
   \<and> map_option total_time (report (finder_main example_world finder_skip_one)) =
       Some (Fin 11)
   \<and> map_option mean_per_event (report (finder_main example_world finder_skip_one)) =
       Some (Fin (11 / 2))
   \<and> map_option sigma_per_event (report (finder_main example_world finder_skip_one)) =
       Some (ddiv (dsqrt (Fin 2)) (Fin 2))
   \<and> map_option lowest_per_event (report (finder_main example_world finder_skip_one)) =
       Some (Fin 5)"
proof -
  note k = finder_skip_one_facts
  have h3: "0 \<le> skip_events_option finder_skip_one" by (simp add: k)
  have h4: "skip_events_option finder_skip_one < 2 ^ 31" by (simp add: k)
  have t: "1 \<le> trials_option finder_skip_one" by (simp add: k)
  have nt: "nat (trials_option finder_skip_one) = 2" by (simp add: k)
  have n: "length (finder_store example_world finder_skip_one) = 2" by (simp add: k)
  have b: "\<forall>trial < nat (trials_option finder_skip_one).
             0 \<le> clock_us example_world trial \<and> clock_us example_world trial < 2 ^ 63"
    using example_clock_bound by (simp add: k)
  have v: "spec_variance [Fin 10, Fin 12] 2 = Fin 2"
    by (simp add: spec_variance_def dsum_def double_of_small dsub_def round64_numeral
        round64_one)
  note th = skip_events_and_normalisation[OF k(1) k(5) h3 h4]
  from th have l: "length (trials_run (finder_main example_world finder_skip_one)) = 2"
    by (simp add: k)
  from th have c: "\<forall>pass \<in> set (trials_run (finder_main example_world finder_skip_one)).
              clustered pass = [(1, [stable_jet])]"
    by (simp add: k upt_rec)
  from th t b obtain r m where
    r: "report (finder_main example_world finder_skip_one) = Some r"
    and p: "processed r = length (finder_store example_world finder_skip_one)"
      "total_time r =
         ddiv (dsum (elapsed example_world (trials_option finder_skip_one)))
           (double_of_int (trials_option finder_skip_one))"
      "mean_per_event r =
         ddiv (total_time r)
           (double_of_size (length (finder_store example_world finder_skip_one)))"
      "sigma_per_event r =
         ddiv (if 1 < trials_option finder_skip_one
               then dsqrt (spec_variance (elapsed example_world (trials_option finder_skip_one))
                             (trials_option finder_skip_one))
               else Fin 0)
           (double_of_size (length (finder_store example_world finder_skip_one)))"
    and m: "least_of (elapsed example_world (trials_option finder_skip_one)) m"
      "lowest_per_event r =
         ddiv m (double_of_size (length (finder_store example_world finder_skip_one)))"
    by blast
  have p1: "processed r = 2" using p(1) unfolding n .
  have p2: "total_time r = Fin 11"
    using p(2) unfolding k(3) example_elapsed
    by (simp add: dsum_def double_of_small round64_numeral)
  have p3: "mean_per_event r = Fin (11 / 2)"
    using p(3) unfolding n p2 by (simp add: double_of_small round64_numeral_half)
  have p4: "sigma_per_event r = ddiv (dsqrt (Fin 2)) (Fin 2)"
    using p(4) unfolding n k(3) example_elapsed v by (simp add: double_of_small)
  have "m = Fin 10"
    using m(1) unfolding k(3) example_elapsed example_least .
  then have p5: "lowest_per_event r = Fin 5"
    using m(2) unfolding n by (simp add: double_of_small round64_numeral)
  have cl: "map clustered (trials_run (finder_main example_world finder_skip_one)) =
              [[(1, [stable_jet])], [(1, [stable_jet])]]"
  proof -
    from l obtain a b where
      ab: "trials_run (finder_main example_world finder_skip_one) = [a, b]"
      by (auto simp: length_Suc_conv numeral_2_eq_2)
    with c show ?thesis by simp
  qed
  have ck: "0 \<le> clock_us example_world 0 \<and> clock_us example_world 0 < 2 ^ 63
     \<and> 0 \<le> clock_us example_world 1 \<and> clock_us example_world 1 < 2 ^ 63"
    by (simp add: example_world_def)
  from k(1) k(5) h3 h4 t nt ck n l cl r p1 p2 p3 p4 p5 show ?thesis by simp
qed

text \<open>
  C6 as the specification states it fails for a negative \<open>s\<close>: with \<^verbatim>\<open>--skipevents -1\<close>
  the indices from \<open>s\<close> to \<open>n - 1\<close> take in both events of the store, and the one pass
  clusters none: the index converted to \<^verbatim>\<open>size_t\<close> is \<open>2 ^ 64 - 1\<close>.
\<close>

theorem negative_skip_counterexample:
  "skip_events_option finder_skip_back = - 1
   \<and> [i \<leftarrow> [0..<length (finder_store example_world finder_skip_back)].
         skip_events_option finder_skip_back \<le> int i] = [0, 1]
   \<and> map clustered (trials_run (finder_main example_world finder_skip_back)) = [[]]"
proof -
  have c: "finder_configured finder_skip_back"
    by (rule ptmin_only_configured[of _ "Fin 0"])
       (simp_all add: finder_skip_back_def finder_example_def finder_defaults_def)
  have s: "finder_store example_world finder_skip_back = [[stable_jet], [stable_jet]]"
    by (rule example_store)
       (simp_all add: finder_skip_back_def finder_example_def finder_defaults_def)
  have k: "skip_events_option finder_skip_back = - 1"
    by (simp add: finder_skip_back_def)
  have t: "trials_option finder_skip_back = 1"
    by (simp add: finder_skip_back_def finder_example_def finder_defaults_def)
  have o: "dump_opens example_world (dump_option finder_skip_back)
             \<or> finder_store example_world finder_skip_back = []"
    by (simp add: finder_skip_back_def finder_example_def finder_defaults_def)
  have u: "[0..<2] = [0, Suc 0]" by (simp add: upt_rec)
  note r = finder_completes[OF c o]
  have l: "length (trials_run (finder_main example_world finder_skip_back)) = 1"
    using finder_printed(4)[OF r] by (simp add: t)
  have e: "\<forall>pass \<in> set (trials_run (finder_main example_world finder_skip_back)).
             clustered pass = []"
    using finder_printed(5)[OF r] by (simp add: s k size_t_of_int_minus_one)
  from l obtain a where "trials_run (finder_main example_world finder_skip_back) = [a]"
    by (auto simp: length_Suc_conv)
  with e have "map clustered (trials_run (finder_main example_world finder_skip_back)) = [[]]"
    by simp
  with k s u show ?thesis by simp
qed

end
